theory Spec2Isabelle
  imports Main "HOL-Library.Sublist" "HOL-Library.AList"
begin

section \<open>JavaScript values and strings\<close>

text \<open>
  The TypeScript types of the extension are erased at run time, so a value read back by
  \<^verbatim>\<open>JSON.parse\<close> is any JSON value. Numbers are kept as their decimal text: no function of
  the extension computes with them. An object is its list of own properties in insertion
  order, each name once.
\<close>

datatype json =
    JNull
  | JBool bool
  | JNumber string
  | JString string
  | JArray "json list"
  | JObject "(string \<times> json) list"

text \<open>\<^verbatim>\<open>s.includes(t)\<close> of \<^verbatim>\<open>String.prototype\<close>: \<open>t\<close> occurs in \<open>s\<close> as a contiguous run.\<close>

definition str_includes :: "string \<Rightarrow> string \<Rightarrow> bool" where
  "str_includes s t = sublist t s"

text \<open>
  The errors the program can raise: the \<^verbatim>\<open>fs\<close> error codes, the \<^verbatim>\<open>SyntaxError\<close> of
  \<^verbatim>\<open>JSON.parse\<close> and the \<^verbatim>\<open>TypeError\<close> of a property access or call on a value of the
  wrong kind.
\<close>

datatype js_error =
  ENOENT | EISDIR | ENOTDIR | EACCES | EEXIST | ENOTEMPTY | SyntaxError | TypeError

section \<open>The delivery prober (\<^verbatim>\<open>tryCommands\<close> in \<^verbatim>\<open>createReviewRequestFile\<close>)\<close>

text \<open>A candidate of the list \<^verbatim>\<open>configs\<close>: \<^verbatim>\<open>{ id, args }\<close>.\<close>

record config =
  cid :: string
  cargs :: json

text \<open>The twelve candidates, in the order of the source, for a given prompt.\<close>

definition configs :: "string \<Rightarrow> config list" where
  "configs prompt =
    [ \<lparr>cid = ''antigravity.sendTextToChat'', cargs = JArray [JString prompt]\<rparr>,
      \<lparr>cid = ''antigravity.sendPromptToAgentPanel'', cargs = JArray [JString prompt]\<rparr>,
      \<lparr>cid = ''antigravity.agentSidePanel.open'', cargs = JArray []\<rparr>,
      \<lparr>cid = ''antigravity.agentPanel.open'', cargs = JArray []\<rparr>,
      \<lparr>cid = ''antigravity.toggleChatFocus'', cargs = JArray []\<rparr>,
      \<lparr>cid = ''antigravity.prioritized.chat.open'',
        cargs = JObject [(''query'', JString prompt), (''target'', JString ''sidebar''),
                         (''submit'', JBool True)]\<rparr>,
      \<lparr>cid = ''antigravity.prioritized.chat.open'',
        cargs = JObject [(''prompt'', JString prompt), (''autoSubmit'', JBool True)]\<rparr>,
      \<lparr>cid = ''workbench.action.chat.open'',
        cargs = JArray [JObject [(''query'', JString prompt)]]\<rparr>,
      \<lparr>cid = ''workbench.action.chat.send'',
        cargs = JArray [JObject [(''query'', JString prompt)]]\<rparr>,
      \<lparr>cid = ''antigravity.askAI'',
        cargs = JObject [(''query'', JString prompt), (''submit'', JBool True)]\<rparr>,
      \<lparr>cid = ''antigravity.agent.submit'', cargs = JObject [(''prompt'', JString prompt)]\<rparr>,
      \<lparr>cid = ''cascades.askAI'',
        cargs = JObject [(''query'', JString prompt), (''submit'', JBool True)]\<rparr> ]"

text \<open>
  \<^verbatim>\<open>Array.isArray(config.args) ? config.args : [config.args]\<close>: the argument list that is
  spread into \<^verbatim>\<open>executeCommand\<close>.
\<close>

definition spreadArgs :: "json \<Rightarrow> json list" where
  "spreadArgs a = (case a of JArray xs \<Rightarrow> xs | _ \<Rightarrow> [a])"

text \<open>
  The test of line 334: the identifier contains \<^verbatim>\<open>focus\<close>, \<^verbatim>\<open>open\<close> or \<^verbatim>\<open>toggle\<close>
  (case-sensitive).
\<close>

definition isOpener :: "string \<Rightarrow> bool" where
  "isOpener i = (str_includes i ''focus'' \<or> str_includes i ''open'' \<or> str_includes i ''toggle'')"

text \<open>
  What \<^verbatim>\<open>catch (e: any)\<close> of line 340 can receive. JavaScript throws any value, and the
  handler reads \<^verbatim>\<open>e.message\<close> inside a template literal. \<open>Rejected m\<close> is a value other than
  \<^verbatim>\<open>null\<close> and \<^verbatim>\<open>undefined\<close>, \<open>m\<close> being the text the template makes of its \<^verbatim>\<open>message\<close>
  property (the message of an \<^verbatim>\<open>Error\<close>; the text \<^verbatim>\<open>undefined\<close> for a value without
  one). \<open>RejectedNullish\<close> is \<^verbatim>\<open>null\<close> or \<^verbatim>\<open>undefined\<close>: reading \<^verbatim>\<open>e.message\<close> then
  throws a \<^verbatim>\<open>TypeError\<close>. (So does the template on a value whose \<^verbatim>\<open>message\<close> is a
  \<^verbatim>\<open>Symbol\<close>; the same constructor stands for it.)
\<close>

datatype rejection = RejectedNullish | Rejected string

text \<open>
  The host's command registry is outside the repository. \<^verbatim>\<open>vscode.commands.executeCommand\<close>
  is a function of the host's state, the identifier and the arguments; it either resolves
  (\<open>Inr ()\<close>) or rejects with the \<open>Inl\<close> value, and it may change the host's state (an opener
  reveals a panel). The promise is taken to settle.
\<close>

type_synonym outcome = "rejection + unit"

type_synonym 'h executeCommand = "'h \<Rightarrow> string \<Rightarrow> json list \<Rightarrow> outcome \<times> 'h"

text \<open>
  The lines appended to the output channel:
  \<^verbatim>\<open>Starting auto-trigger for prompt: "p"\<close>, \<^verbatim>\<open>Attempting: id with args\<close>,
  \<^verbatim>\<open>SUCCESS: id\<close>, \<^verbatim>\<open>FAILED: id - message\<close>.
\<close>

datatype log_line =
    Starting string
  | Attempting string json
  | SUCCESS string
  | FAILED string string

text \<open>
  The \<^verbatim>\<open>for\<close> loop of \<^verbatim>\<open>tryCommands\<close>, with the local \<^verbatim>\<open>lastMatched\<close> as an argument.
  It returns the function's result, the lines it appended to the output channel, and the
  host's state. The 500 ms pause after an opener has no effect on any of the three.

  The handler of line 341 evaluates its template literal before it calls \<^verbatim>\<open>appendLine\<close>.
  On a rejection with \<^verbatim>\<open>null\<close> or \<^verbatim>\<open>undefined\<close> the \<^verbatim>\<open>TypeError\<close> of \<^verbatim>\<open>e.message\<close> is
  thrown inside the \<^verbatim>\<open>catch\<close> block, where nothing catches it: no line is appended after
  \<^verbatim>\<open>Attempting\<close>, the loop ends and \<^verbatim>\<open>tryCommands\<close> rejects.
\<close>

fun tryCommands_loop ::
  "'h executeCommand \<Rightarrow> config list \<Rightarrow> bool \<Rightarrow> 'h
     \<Rightarrow> (js_error + bool) \<times> log_line list \<times> 'h" where
  "tryCommands_loop exec [] lastMatched h = (Inr lastMatched, [], h)"
| "tryCommands_loop exec (c # cs) lastMatched h =
    (case exec h (cid c) (spreadArgs (cargs c)) of
       (Inr _, h') \<Rightarrow>
         if isOpener (cid c)
         then (case tryCommands_loop exec cs True h' of
                 (r, ls, h'') \<Rightarrow> (r, Attempting (cid c) (cargs c) # SUCCESS (cid c) # ls, h''))
         else (Inr True, [Attempting (cid c) (cargs c), SUCCESS (cid c)], h')
     | (Inl (Rejected msg), h') \<Rightarrow>
         (case tryCommands_loop exec cs lastMatched h' of
            (r, ls, h'') \<Rightarrow> (r, Attempting (cid c) (cargs c) # FAILED (cid c) msg # ls, h''))
     | (Inl RejectedNullish, h') \<Rightarrow> (Inl TypeError, [Attempting (cid c) (cargs c)], h'))"

definition tryCommands ::
  "'h executeCommand \<Rightarrow> string \<Rightarrow> 'h \<Rightarrow> (js_error + bool) \<times> log_line list \<times> 'h" where
  "tryCommands exec prompt h = tryCommands_loop exec (configs prompt) False h"

text \<open>What the extension does to the editor's user interface, in the order it does it.\<close>

datatype ui_event =
    ShowErrorMessage string
  | ShowInformationMessage string
  | ClipboardWriteText string
  | OutputChannelShow
  | OutputAppendLine log_line
  | OpenTextDocument string
  | ShowTextDocument string
  | SetTimeoutCleanup string nat

definition msgAutoTriggerFailed :: string where
  "msgAutoTriggerFailed =
     ''Auto-trigger failed. Details in Output channel. Prompt copied to clipboard; please paste it into the Sidebar Chat.''"

definition msgSubmitted :: string where
  "msgSubmitted =
     ''Review request submitted to Antigravity AI Agent. The request file will be auto-deleted shortly.''"

text \<open>
  The part of \<^verbatim>\<open>createReviewRequestFile\<close> under the comment \<^verbatim>\<open>AUTO-PROMPT LOGIC\<close>
  (lines 294 to 357), for the prompt already built: whether it throws, the user-interface
  events it produces and the host's state afterwards. \<^verbatim>\<open>await tryCommands()\<close> rethrows the
  rejection of \<^verbatim>\<open>tryCommands\<close>, and lines 348 to 357 are then not reached.
\<close>

definition autoPromptLogic ::
  "'h executeCommand \<Rightarrow> string \<Rightarrow> 'h \<Rightarrow> (js_error + unit) \<times> ui_event list \<times> 'h" where
  "autoPromptLogic exec prompt h =
    (case tryCommands exec prompt h of
       (Inl e, ls, h') \<Rightarrow>
         (Inl e, OutputAppendLine (Starting prompt) # map OutputAppendLine ls, h')
     | (Inr success, ls, h') \<Rightarrow>
         (Inr (),
          OutputAppendLine (Starting prompt) # map OutputAppendLine ls @
            (if \<not> success
             then [OutputChannelShow, ClipboardWriteText prompt,
                   ShowInformationMessage msgAutoTriggerFailed]
             else [ShowInformationMessage msgSubmitted]),
          h'))"

subsection \<open>Vocabulary for the claims about the prober\<close>

text \<open>
  The outcome each candidate would have if all of them were invoked in list order, the host's
  state threaded through. The prober invokes a prefix of them.
\<close>

fun attempts :: "'h executeCommand \<Rightarrow> config list \<Rightarrow> 'h \<Rightarrow> (config \<times> outcome) list" where
  "attempts exec [] h = []"
| "attempts exec (c # cs) h =
    (case exec h (cid c) (spreadArgs (cargs c)) of (r, h') \<Rightarrow> (c, r) # attempts exec cs h')"

text \<open>The host's state after invoking every candidate of a list, in order.\<close>

fun invokeAll :: "'h executeCommand \<Rightarrow> config list \<Rightarrow> 'h \<Rightarrow> 'h" where
  "invokeAll exec [] h = h"
| "invokeAll exec (c # cs) h = invokeAll exec cs (snd (exec h (cid c) (spreadArgs (cargs c))))"

definition succeeded :: "config \<times> outcome \<Rightarrow> bool" where
  "succeeded a = (\<not> isl (snd a))"

text \<open>A delivery: an invocation that succeeds and is not classified as an opener.\<close>

definition delivered :: "config \<times> outcome \<Rightarrow> bool" where
  "delivered a = (succeeded a \<and> \<not> isOpener (cid (fst a)))"

definition undelivered :: "config \<times> outcome \<Rightarrow> bool" where
  "undelivered a = (\<not> delivered a)"

text \<open>An invocation rejected with \<^verbatim>\<open>null\<close> or \<^verbatim>\<open>undefined\<close>.\<close>

definition nullish :: "config \<times> outcome \<Rightarrow> bool" where
  "nullish a = (snd a = Inl RejectedNullish)"

text \<open>The loop goes on to the next candidate after an attempt that is neither.\<close>

definition goesOn :: "config \<times> outcome \<Rightarrow> bool" where
  "goesOn a = (undelivered a \<and> \<not> nullish a)"

text \<open>
  The lines the loop logs for one attempted candidate: the attempt, and its outcome where
  one is logged.
\<close>

definition logEntry :: "config \<times> outcome \<Rightarrow> log_line list" where
  "logEntry a =
    Attempting (cid (fst a)) (cargs (fst a)) #
    (case snd a of
       Inr _ \<Rightarrow> [SUCCESS (cid (fst a))]
     | Inl (Rejected msg) \<Rightarrow> [FAILED (cid (fst a)) msg]
     | Inl RejectedNullish \<Rightarrow> [])"

text \<open>
  The attempts the loop makes: those up to and including the first one that is a delivery or
  is rejected with \<^verbatim>\<open>null\<close> or \<^verbatim>\<open>undefined\<close> (all of them when there is none).
\<close>

definition attempted :: "(config \<times> outcome) list \<Rightarrow> (config \<times> outcome) list" where
  "attempted as = takeWhile goesOn as @ take 1 (dropWhile goesOn as)"

text \<open>Every candidate that succeeds is an opener: no attempt is a delivery.\<close>

definition onlyOpenersSucceed :: "(config \<times> outcome) list \<Rightarrow> bool" where
  "onlyOpenersSucceed as = list_all undelivered as"

text \<open>No candidate is rejected with \<^verbatim>\<open>null\<close> or \<^verbatim>\<open>undefined\<close>.\<close>

definition noNullishRejection :: "(config \<times> outcome) list \<Rightarrow> bool" where
  "noNullishRejection as = (\<not> list_ex nullish as)"

definition anySucceeded :: "(config \<times> outcome) list \<Rightarrow> bool" where
  "anySucceeded as = list_ex succeeded as"

fun clipboardWrites :: "ui_event list \<Rightarrow> string list" where
  "clipboardWrites [] = []"
| "clipboardWrites (ClipboardWriteText t # es) = t # clipboardWrites es"
| "clipboardWrites (e # es) = clipboardWrites es"

text \<open>The notifications shown, in order.\<close>

fun notifications :: "ui_event list \<Rightarrow> string list" where
  "notifications [] = []"
| "notifications (ShowInformationMessage t # es) = t # notifications es"
| "notifications (e # es) = notifications es"

text \<open>
  Three hosts used as concrete inputs. In the first, the only command that exists is the
  side panel opener; in the second, no command exists: every other identifier is rejected
  with an \<^verbatim>\<open>Error\<close> as an unknown command. In the third, \<^verbatim>\<open>workbench.action.chat.send\<close>
  delivers the prompt, the handler of \<^verbatim>\<open>antigravity.sendTextToChat\<close> rejects with
  \<^verbatim>\<open>undefined\<close> (a \<^verbatim>\<open>Promise.reject()\<close> without a reason), and no other command exists.
\<close>

definition hostOpenerOnly :: "unit executeCommand" where
  "hostOpenerOnly h i as =
    (if i = ''antigravity.agentSidePanel.open'' then (Inr (), h)
     else (Inl (Rejected ''command not found''), h))"

definition hostNone :: "unit executeCommand" where
  "hostNone h i as = (Inl (Rejected ''command not found''), h)"

definition hostRejectsWithUndefined :: "unit executeCommand" where
  "hostRejectsWithUndefined h i as =
    (if i = ''workbench.action.chat.send'' then (Inr (), h)
     else if i = ''antigravity.sendTextToChat'' then (Inl RejectedNullish, h)
     else (Inl (Rejected ''command not found''), h))"

section \<open>The file system\<close>

text \<open>
  Node's \<^verbatim>\<open>path\<close> and \<^verbatim>\<open>fs\<close> modules are not part of the repository; this section is the
  model of them that the extension's functions run against.

  Paths are the strings the extension passes to \<^verbatim>\<open>fs\<close>: normalised absolute POSIX paths such
  as \<^verbatim>\<open>/home/u/proj\<close>, with \<^verbatim>\<open>/\<close> for the root. On such a path and a plain file name,
  \<^verbatim>\<open>path.join\<close> appends the name after a separator, \<^verbatim>\<open>path.dirname\<close> drops the last
  component, and \<^verbatim>\<open>path.resolve(d, '..', '..', '..')\<close> drops the last three.
\<close>

type_synonym path = string

definition path_join :: "path \<Rightarrow> string \<Rightarrow> path" where
  "path_join d n = (if d = ''/'' then d @ n else d @ ''/'' @ n)"

definition path_dirname :: "path \<Rightarrow> path" where
  "path_dirname p =
    (let q = rev (drop 1 (dropWhile (\<lambda>c. c \<noteq> CHR ''/'') (rev p)))
     in if q \<noteq> [] then q else if take 1 p = ''/'' then ''/'' else ''.'')"

definition path_basename :: "path \<Rightarrow> string" where
  "path_basename p = rev (takeWhile (\<lambda>c. c \<noteq> CHR ''/'') (rev p))"

definition path_resolve_up3 :: "path \<Rightarrow> path" where
  "path_resolve_up3 d = path_dirname (path_dirname (path_dirname d))"

text \<open>The proper ancestors of a path below the root, outermost first, then the path itself.\<close>

definition path_chain :: "path \<Rightarrow> path list" where
  "path_chain p = [take i p. i \<leftarrow> [1..<length p], p ! i = CHR ''/''] @ [p]"

datatype node = File string | Dir

text \<open>
  A file system: the nodes by path, and the paths the operating system refuses to read, change
  or remove (\<^verbatim>\<open>EACCES\<close>). An operation throws on a node of the wrong kind, on a missing
  node and on a locked path, and then changes nothing. \<open>history\<close> is not part of the
  program's state: it records the node table after every change, oldest first, so that the
  states a sequence of calls passes through can be spoken about.
\<close>

record filesystem =
  nodes :: "(path \<times> node) list"
  locked :: "path set"
  history :: "(path \<times> node) list list"

definition lookup :: "filesystem \<Rightarrow> path \<Rightarrow> node option" where
  "lookup fs p = map_of (nodes fs) p"

definition commit :: "filesystem \<Rightarrow> (path \<times> node) list \<Rightarrow> filesystem" where
  "commit fs ns = fs\<lparr>nodes := ns, history := history fs @ [ns]\<rparr>"

definition existsSync :: "filesystem \<Rightarrow> path \<Rightarrow> bool" where
  "existsSync fs p = (lookup fs p \<noteq> None)"

definition readFileSync :: "filesystem \<Rightarrow> path \<Rightarrow> js_error + string" where
  "readFileSync fs p =
    (case lookup fs p of
       None \<Rightarrow> Inl ENOENT
     | Some Dir \<Rightarrow> Inl EISDIR
     | Some (File c) \<Rightarrow> if p \<in> locked fs then Inl EACCES else Inr c)"

text \<open>The entries of a directory, as paths.\<close>

definition entries :: "filesystem \<Rightarrow> path \<Rightarrow> path list" where
  "entries fs d = [p \<leftarrow> map fst (nodes fs). p \<noteq> d \<and> path_dirname p = d]"

definition readdirSync :: "filesystem \<Rightarrow> path \<Rightarrow> js_error + path list" where
  "readdirSync fs d =
    (case lookup fs d of
       None \<Rightarrow> Inl ENOENT
     | Some (File c) \<Rightarrow> Inl ENOTDIR
     | Some Dir \<Rightarrow> if d \<in> locked fs then Inl EACCES else Inr (entries fs d))"

definition unlinkSync :: "filesystem \<Rightarrow> path \<Rightarrow> (js_error + unit) \<times> filesystem" where
  "unlinkSync fs p =
    (case lookup fs p of
       None \<Rightarrow> (Inl ENOENT, fs)
     | Some Dir \<Rightarrow> (Inl EISDIR, fs)
     | Some (File c) \<Rightarrow>
         if p \<in> locked fs then (Inl EACCES, fs)
         else (Inr (), commit fs (AList.delete p (nodes fs))))"

definition rmdirSync :: "filesystem \<Rightarrow> path \<Rightarrow> (js_error + unit) \<times> filesystem" where
  "rmdirSync fs d =
    (case lookup fs d of
       None \<Rightarrow> (Inl ENOENT, fs)
     | Some (File c) \<Rightarrow> (Inl ENOTDIR, fs)
     | Some Dir \<Rightarrow>
         if d \<in> locked fs then (Inl EACCES, fs)
         else if entries fs d \<noteq> [] then (Inl ENOTEMPTY, fs)
         else (Inr (), commit fs (AList.delete d (nodes fs))))"

definition writeFileSync :: "filesystem \<Rightarrow> path \<Rightarrow> string \<Rightarrow> (js_error + unit) \<times> filesystem" where
  "writeFileSync fs p c =
    (case lookup fs p of
       Some Dir \<Rightarrow> (Inl EISDIR, fs)
     | _ \<Rightarrow>
         if p \<in> locked fs then (Inl EACCES, fs)
         else (case lookup fs (path_dirname p) of
                 None \<Rightarrow> (Inl ENOENT, fs)
               | Some (File x) \<Rightarrow> (Inl ENOTDIR, fs)
               | Some Dir \<Rightarrow> (Inr (), commit fs (AList.update p (File c) (nodes fs)))))"

definition copyFileSync :: "filesystem \<Rightarrow> path \<Rightarrow> path \<Rightarrow> (js_error + unit) \<times> filesystem" where
  "copyFileSync fs src dest =
    (case readFileSync fs src of
       Inl e \<Rightarrow> (Inl e, fs)
     | Inr c \<Rightarrow> writeFileSync fs dest c)"

text \<open>
  \<^verbatim>\<open>fs.mkdirSync(d, { recursive: true })\<close>: every missing directory of the chain is created;
  a directory that exists is left alone; a file in the way is an error.
\<close>

fun mkdirChain :: "path list \<Rightarrow> filesystem \<Rightarrow> (js_error + unit) \<times> filesystem" where
  "mkdirChain [] fs = (Inr (), fs)"
| "mkdirChain (a # as) fs =
    (case lookup fs a of
       Some Dir \<Rightarrow> mkdirChain as fs
     | Some (File c) \<Rightarrow> (Inl (if as = [] then EEXIST else ENOTDIR), fs)
     | None \<Rightarrow>
         if a \<in> locked fs then (Inl EACCES, fs)
         else mkdirChain as (commit fs (AList.update a Dir (nodes fs))))"

definition mkdirSync_recursive :: "filesystem \<Rightarrow> path \<Rightarrow> (js_error + unit) \<times> filesystem" where
  "mkdirSync_recursive fs d = mkdirChain (path_chain d) fs"

section \<open>Sequencing and the recurring guards\<close>

text \<open>
  A statement either completes (\<open>Inr\<close>) or throws (\<open>Inl\<close>); either way it leaves a file
  system behind. \<open>andThen\<close> runs the next statement only after a normal completion.
\<close>

definition andThen ::
  "(js_error + 'a) \<times> filesystem \<Rightarrow> ('a \<Rightarrow> filesystem \<Rightarrow> (js_error + 'b) \<times> filesystem)
     \<Rightarrow> (js_error + 'b) \<times> filesystem" where
  "andThen r f = (case r of (Inl e, fs) \<Rightarrow> (Inl e, fs) | (Inr a, fs) \<Rightarrow> f a fs)"

text \<open>\<^verbatim>\<open>if (fs.existsSync(p)) { fs.unlinkSync(p); }\<close>\<close>

definition unlinkIfExists :: "filesystem \<Rightarrow> path \<Rightarrow> (js_error + unit) \<times> filesystem" where
  "unlinkIfExists fs p = (if existsSync fs p then unlinkSync fs p else (Inr (), fs))"

text \<open>\<^verbatim>\<open>if (fs.readdirSync(d).length === 0) { fs.rmdirSync(d); }\<close>\<close>

definition rmdirIfEmpty :: "filesystem \<Rightarrow> path \<Rightarrow> (js_error + unit) \<times> filesystem" where
  "rmdirIfEmpty fs d =
    (case readdirSync fs d of
       Inl e \<Rightarrow> (Inl e, fs)
     | Inr remaining \<Rightarrow> if remaining = [] then rmdirSync fs d else (Inr (), fs))"

text \<open>\<^verbatim>\<open>if (fs.existsSync(d) && fs.readdirSync(d).length === 0) { fs.rmdirSync(d); }\<close>\<close>

definition rmdirIfExistsEmpty :: "filesystem \<Rightarrow> path \<Rightarrow> (js_error + unit) \<times> filesystem" where
  "rmdirIfExistsEmpty fs d = (if existsSync fs d then rmdirIfEmpty fs d else (Inr (), fs))"

section \<open>Property access, iteration and array methods on a parsed value\<close>

text \<open>
  \<^verbatim>\<open>v.k\<close> for the two names the extension reads, \<^verbatim>\<open>installedPaths\<close> and
  \<^verbatim>\<open>extensionVersion\<close>: a \<^verbatim>\<open>TypeError\<close> on \<^verbatim>\<open>null\<close>, the own property of an object,
  \<^verbatim>\<open>undefined\<close> (\<open>None\<close>) on anything else.
\<close>

definition getProp :: "json \<Rightarrow> string \<Rightarrow> js_error + json option" where
  "getProp v k =
    (case v of JNull \<Rightarrow> Inl TypeError | JObject kvs \<Rightarrow> Inr (map_of kvs k) | _ \<Rightarrow> Inr None)"

text \<open>
  \<^verbatim>\<open>v.k = x\<close> on the manifest: an object gets or replaces the property. The program reaches
  the assignment only with an object; on \<^verbatim>\<open>null\<close> it is a \<^verbatim>\<open>TypeError\<close>, and any other
  value is left as it is.
\<close>

definition setProp :: "json \<Rightarrow> string \<Rightarrow> json \<Rightarrow> js_error + json" where
  "setProp v k x =
    (case v of
       JNull \<Rightarrow> Inl TypeError
     | JObject kvs \<Rightarrow> Inr (JObject (AList.update k x kvs))
     | _ \<Rightarrow> Inr v)"

text \<open>
  \<^verbatim>\<open>a.includes(s)\<close> for a string \<open>s\<close>: membership in an array, containment in a string, a
  \<^verbatim>\<open>TypeError\<close> on every other value (\<^verbatim>\<open>undefined\<close> included).
\<close>

definition js_includes :: "json option \<Rightarrow> string \<Rightarrow> js_error + bool" where
  "js_includes a s =
    (case a of
       Some (JArray xs) \<Rightarrow> Inr (JString s \<in> set xs)
     | Some (JString t) \<Rightarrow> Inr (str_includes t s)
     | _ \<Rightarrow> Inl TypeError)"

text \<open>\<^verbatim>\<open>a.push(s)\<close>: only an array has the method.\<close>

definition js_push :: "json option \<Rightarrow> string \<Rightarrow> js_error + json" where
  "js_push a s = (case a of Some (JArray xs) \<Rightarrow> Inr (JArray (xs @ [JString s])) | _ \<Rightarrow> Inl TypeError)"

text \<open>
  The values \<^verbatim>\<open>for (const x of a)\<close> runs through: the elements of an array, the characters
  of a string; anything else is not iterable.
\<close>

definition js_iterate :: "json option \<Rightarrow> js_error + json list" where
  "js_iterate a =
    (case a of
       Some (JArray xs) \<Rightarrow> Inr xs
     | Some (JString t) \<Rightarrow> Inr (map (\<lambda>c. JString [c]) t)
     | _ \<Rightarrow> Inl TypeError)"

section \<open>The manifest store (\<^verbatim>\<open>getManifest\<close>, \<^verbatim>\<open>setManifest\<close>)\<close>

text \<open>
  What the program takes from Node: the home directory, \<^verbatim>\<open>JSON.parse\<close> (\<open>None\<close> when it
  throws a \<^verbatim>\<open>SyntaxError\<close>) and \<^verbatim>\<open>JSON.stringify(_, null, 2)\<close>.
\<close>

record platform =
  homedir :: path
  JSON_parse :: "string \<Rightarrow> json option"
  JSON_stringify :: "json \<Rightarrow> string"

definition MANIFEST_DIR :: "platform \<Rightarrow> path" where
  "MANIFEST_DIR P = path_join (homedir P) ''.antigravity-code-review''"

definition MANIFEST_FILE :: "platform \<Rightarrow> path" where
  "MANIFEST_FILE P = path_join (MANIFEST_DIR P) ''installed-skills.json''"

text \<open>\<^verbatim>\<open>{ installedPaths: [], extensionVersion: '' }\<close>\<close>

definition emptyManifest :: json where
  "emptyManifest = JObject [(''installedPaths'', JArray []), (''extensionVersion'', JString [])]"

text \<open>
  The \<^verbatim>\<open>try\<close> block of \<^verbatim>\<open>getManifest\<close>: it returns the parsed value, falls through when
  the file does not exist (\<open>Inr None\<close>), or throws.
\<close>

definition getManifest_try :: "platform \<Rightarrow> filesystem \<Rightarrow> js_error + json option" where
  "getManifest_try P fs =
    (if existsSync fs (MANIFEST_FILE P)
     then (case readFileSync fs (MANIFEST_FILE P) of
             Inl e \<Rightarrow> Inl e
           | Inr raw \<Rightarrow> (case JSON_parse P raw of None \<Rightarrow> Inl SyntaxError | Some v \<Rightarrow> Inr (Some v)))
     else Inr None)"

text \<open>The \<^verbatim>\<open>catch\<close> is empty, and both it and the fall-through end in the default.\<close>

definition getManifest :: "platform \<Rightarrow> filesystem \<Rightarrow> json" where
  "getManifest P fs =
    (case getManifest_try P fs of Inr (Some v) \<Rightarrow> v | Inr None \<Rightarrow> emptyManifest | Inl e \<Rightarrow> emptyManifest)"

definition setManifest :: "platform \<Rightarrow> json \<Rightarrow> filesystem \<Rightarrow> (js_error + unit) \<times> filesystem" where
  "setManifest P manifest fs =
    andThen (if \<not> existsSync fs (MANIFEST_DIR P)
             then mkdirSync_recursive fs (MANIFEST_DIR P) else (Inr (), fs))
      (\<lambda>_ fs1. writeFileSync fs1 (MANIFEST_FILE P) (JSON_stringify P manifest))"

section \<open>The skill installer (\<^verbatim>\<open>installSkillFiles\<close>, \<^verbatim>\<open>removeOldSkillFiles\<close>)\<close>

text \<open>\<^verbatim>\<open>path.join(workspacePath, '.agents', 'skills', 'code-review')\<close>\<close>

definition destDir :: "path \<Rightarrow> path" where
  "destDir workspacePath =
     path_join (path_join (path_join workspacePath ''.agents'') ''skills'') ''code-review''"

text \<open>
  Lines 68 to 72: the destination is pushed unless the list includes it, then the version is
  set. \<^verbatim>\<open>push\<close> changes the array the property holds, so the property keeps its place.
\<close>

definition recordInstall :: "json \<Rightarrow> path \<Rightarrow> string \<Rightarrow> js_error + json" where
  "recordInstall manifest dest extensionVersion =
    (case getProp manifest ''installedPaths'' of
       Inl e \<Rightarrow> Inl e
     | Inr paths \<Rightarrow>
         (case js_includes paths dest of
            Inl e \<Rightarrow> Inl e
          | Inr True \<Rightarrow> setProp manifest ''extensionVersion'' (JString extensionVersion)
          | Inr False \<Rightarrow>
              (case js_push paths dest of
                 Inl e \<Rightarrow> Inl e
               | Inr pushed \<Rightarrow>
                   (case setProp manifest ''installedPaths'' pushed of
                      Inl e \<Rightarrow> Inl e
                    | Inr m \<Rightarrow> setProp m ''extensionVersion'' (JString extensionVersion)))))"

definition installSkillFiles ::
  "platform \<Rightarrow> path \<Rightarrow> path \<Rightarrow> string \<Rightarrow> filesystem \<Rightarrow> (js_error + unit) \<times> filesystem" where
  "installSkillFiles P extensionPath workspacePath extensionVersion fs =
    (let srcSkill = path_join (path_join extensionPath ''resources'') ''SKILL.md'';
         srcCodeReview = path_join (path_join extensionPath ''resources'') ''code-review.md'';
         dest = destDir workspacePath
     in andThen (if \<not> existsSync fs dest then mkdirSync_recursive fs dest else (Inr (), fs))
       (\<lambda>_ fs1. andThen (if existsSync fs1 srcSkill
                          then copyFileSync fs1 srcSkill (path_join dest ''SKILL.md'')
                          else (Inr (), fs1))
       (\<lambda>_ fs2. andThen (if existsSync fs2 srcCodeReview
                          then copyFileSync fs2 srcCodeReview (path_join dest ''code-review.md'')
                          else (Inr (), fs2))
       (\<lambda>_ fs3. (case recordInstall (getManifest P fs3) dest extensionVersion of
                    Inl e \<Rightarrow> (Inl e, fs3)
                  | Inr manifest \<Rightarrow> setManifest P manifest fs3)))))"

definition removeOldSkillFiles :: "path \<Rightarrow> filesystem \<Rightarrow> (js_error + unit) \<times> filesystem" where
  "removeOldSkillFiles workspacePath fs =
    (let dest = destDir workspacePath;
         skillMd = path_join dest ''SKILL.md'';
         codeReviewMd = path_join dest ''code-review.md''
     in andThen (unlinkIfExists fs skillMd) (\<lambda>_ fs1. unlinkIfExists fs1 codeReviewMd))"

section \<open>Activation: the install decision (lines 102 to 121 of \<^verbatim>\<open>activate\<close>)\<close>

record extension_context =
  extensionPath :: path
  packageVersion :: "string option"

text \<open>The settings under \<^verbatim>\<open>antigravityCodeReview\<close>, defaults already applied by the host.\<close>

record configuration =
  autoInstallSkills :: bool
  additionalRulesPath :: string
  reviewFocus :: "string list"
  severityThreshold :: string
  diffBaseBranch :: string
  cleanupOnDeactivate :: bool

text \<open>\<^verbatim>\<open>packageJSON.version || '0.0.0'\<close>: a missing or empty version is \<^verbatim>\<open>0.0.0\<close>.\<close>

definition currentVersion :: "extension_context \<Rightarrow> string" where
  "currentVersion ctx =
    (case packageVersion ctx of None \<Rightarrow> ''0.0.0'' | Some v \<Rightarrow> if v = [] then ''0.0.0'' else v)"

text \<open>
  \<^verbatim>\<open>!skillExists || manifest.extensionVersion !== extensionVersion\<close>; the property is read
  only when the left operand is false.
\<close>

definition needsInstall :: "platform \<Rightarrow> path \<Rightarrow> string \<Rightarrow> filesystem \<Rightarrow> js_error + bool" where
  "needsInstall P workspaceFolder extensionVersion fs =
    (let manifest = getManifest P fs;
         skillExists = existsSync fs (path_join (destDir workspaceFolder) ''SKILL.md'')
     in if \<not> skillExists then Inr True
        else (case getProp manifest ''extensionVersion'' of
                Inl e \<Rightarrow> Inl e
              | Inr v \<Rightarrow> Inr (v \<noteq> Some (JString extensionVersion))))"

text \<open>
  The branch activation takes, named after the line it logs: installed or updated, already
  up to date, auto-install disabled; with no workspace folder nothing is logged.
\<close>

datatype install_outcome = Installed | UpToDate | Disabled | NoWorkspace

text \<open>
  \<open>workspaceFolder\<close> is \<^verbatim>\<open>workspaceFolders?.[0]?.uri.fsPath\<close>: \<open>None\<close> when no folder is
  open. The path of an open folder is never the empty string, so it is truthy.
\<close>

definition activate_install ::
  "platform \<Rightarrow> configuration \<Rightarrow> extension_context \<Rightarrow> path option \<Rightarrow> filesystem
     \<Rightarrow> (js_error + install_outcome) \<times> filesystem" where
  "activate_install P cfg ctx workspaceFolder fs =
    (case workspaceFolder of
       None \<Rightarrow> (Inr NoWorkspace, fs)
     | Some ws \<Rightarrow>
         if autoInstallSkills cfg
         then (case needsInstall P ws (currentVersion ctx) fs of
                 Inl e \<Rightarrow> (Inl e, fs)
               | Inr True \<Rightarrow>
                   andThen (removeOldSkillFiles ws fs)
                     (\<lambda>_ fs1. andThen (installSkillFiles P (extensionPath ctx) ws (currentVersion ctx) fs1)
                     (\<lambda>_ fs2. (Inr Installed, fs2)))
               | Inr False \<Rightarrow> (Inr UpToDate, fs))
         else (Inr Disabled, fs))"

section \<open>Teardown (\<^verbatim>\<open>deactivate\<close>)\<close>

text \<open>
  The body of the loop for a string \<open>skillDir\<close>. Each of the four deletions is inside its own
  \<^verbatim>\<open>try\<close>; the \<^verbatim>\<open>catch\<close> only logs, so what remains of a deletion is the file system.
\<close>

definition deactivate_body :: "path \<Rightarrow> filesystem \<Rightarrow> filesystem" where
  "deactivate_body skillDir fs =
    (let skillMd = path_join skillDir ''SKILL.md'';
         codeReviewMd = path_join skillDir ''code-review.md'';
         fs1 = snd (unlinkIfExists fs skillMd);
         fs2 = snd (unlinkIfExists fs1 codeReviewMd);
         fs3 = snd (rmdirIfExistsEmpty fs2 skillDir);
         wsRoot = path_resolve_up3 skillDir;
         reviewRequestFile = path_join wsRoot ''code-review-request.md''
     in snd (unlinkIfExists fs3 reviewRequestFile))"

text \<open>\<^verbatim>\<open>path.join\<close> throws a \<^verbatim>\<open>TypeError\<close> on an element that is not a string.\<close>

fun deactivate_loop :: "json list \<Rightarrow> filesystem \<Rightarrow> (js_error + unit) \<times> filesystem" where
  "deactivate_loop [] fs = (Inr (), fs)"
| "deactivate_loop (JString skillDir # rest) fs = deactivate_loop rest (deactivate_body skillDir fs)"
| "deactivate_loop (x # rest) fs = (Inl TypeError, fs)"

text \<open>Lines 599 to 608: the manifest file, then its directory if that is now empty.\<close>

definition clearManifest :: "platform \<Rightarrow> filesystem \<Rightarrow> (js_error + unit) \<times> filesystem" where
  "clearManifest P fs =
    andThen (unlinkIfExists fs (MANIFEST_FILE P)) (\<lambda>_ fs1. rmdirIfExistsEmpty fs1 (MANIFEST_DIR P))"

definition deactivate :: "platform \<Rightarrow> configuration \<Rightarrow> filesystem \<Rightarrow> (js_error + unit) \<times> filesystem" where
  "deactivate P cfg fs =
    (if \<not> cleanupOnDeactivate cfg then (Inr (), fs)
     else (case getProp (getManifest P fs) ''installedPaths'' of
             Inl e \<Rightarrow> (Inl e, fs)
           | Inr paths \<Rightarrow>
               (case js_iterate paths of
                  Inl e \<Rightarrow> (Inl e, fs)
                | Inr skillDirs \<Rightarrow>
                    andThen (deactivate_loop skillDirs fs)
                      (\<lambda>_ fs1. (Inr (), snd (clearManifest P fs1))))))"

section \<open>The uninstall hook (\<^verbatim>\<open>removeSkillFiles\<close> in \<^verbatim>\<open>uninstall.ts\<close>)\<close>

text \<open>
  The body of the loop for a string \<open>skillDir\<close>. Only the removal of the emptied directory has
  a \<^verbatim>\<open>try\<close> of its own; the three file deletions throw to the enclosing \<^verbatim>\<open>try\<close>.
\<close>

definition uninstall_body :: "path \<Rightarrow> filesystem \<Rightarrow> (js_error + unit) \<times> filesystem" where
  "uninstall_body skillDir fs =
    (let skillMd = path_join skillDir ''SKILL.md'';
         codeReviewMd = path_join skillDir ''code-review.md'';
         wsRoot = path_resolve_up3 skillDir;
         reviewRequestFile = path_join wsRoot ''code-review-request.md''
     in andThen (unlinkIfExists fs skillMd)
       (\<lambda>_ fs1. andThen (unlinkIfExists fs1 codeReviewMd)
       (\<lambda>_ fs2. unlinkIfExists (snd (rmdirIfEmpty fs2 skillDir)) reviewRequestFile)))"

fun uninstall_loop :: "json list \<Rightarrow> filesystem \<Rightarrow> (js_error + unit) \<times> filesystem" where
  "uninstall_loop [] fs = (Inr (), fs)"
| "uninstall_loop (JString skillDir # rest) fs =
     andThen (uninstall_body skillDir fs) (\<lambda>_ fs1. uninstall_loop rest fs1)"
| "uninstall_loop (x # rest) fs = (Inl TypeError, fs)"

text \<open>The \<^verbatim>\<open>try\<close> block of lines 29 to 83, entered when the manifest file exists.\<close>

definition removeSkillFiles_try :: "platform \<Rightarrow> filesystem \<Rightarrow> (js_error + unit) \<times> filesystem" where
  "removeSkillFiles_try P fs =
    (case readFileSync fs (MANIFEST_FILE P) of
       Inl e \<Rightarrow> (Inl e, fs)
     | Inr raw \<Rightarrow>
         (case JSON_parse P raw of
            None \<Rightarrow> (Inl SyntaxError, fs)
          | Some manifest \<Rightarrow>
              (case getProp manifest ''installedPaths'' of
                 Inl e \<Rightarrow> (Inl e, fs)
               | Inr paths \<Rightarrow>
                   (case js_iterate paths of
                      Inl e \<Rightarrow> (Inl e, fs)
                    | Inr skillDirs \<Rightarrow>
                        andThen (uninstall_loop skillDirs fs)
                          (\<lambda>_ fs1. andThen (unlinkSync fs1 (MANIFEST_FILE P))
                          (\<lambda>_ fs2. (Inr (), snd (rmdirIfEmpty fs2 (MANIFEST_DIR P)))))))))"

definition removeSkillFiles :: "platform \<Rightarrow> filesystem \<Rightarrow> filesystem" where
  "removeSkillFiles P fs =
    (if existsSync fs (MANIFEST_FILE P) then snd (removeSkillFiles_try P fs) else fs)"

section \<open>The skill reference block and the prompt\<close>

text \<open>The result of \<^verbatim>\<open>getSkillPaths\<close>; an empty \<open>additionalRules\<close> is the falsy \<^verbatim>\<open>''\<close>.\<close>

record skill_paths =
  skillPath :: path
  styleGuidePath :: path
  additionalRules :: string

definition getSkillPaths ::
  "configuration \<Rightarrow> extension_context \<Rightarrow> path option \<Rightarrow> filesystem \<Rightarrow> skill_paths" where
  "getSkillPaths cfg ctx ws fs =
    (let skillDir = (case ws of Some w \<Rightarrow> destDir w
                     | None \<Rightarrow> path_join (extensionPath ctx) ''resources'');
         rules = additionalRulesPath cfg
     in \<lparr>skillPath = path_join skillDir ''SKILL.md'',
         styleGuidePath = path_join skillDir ''code-review.md'',
         additionalRules = (if rules \<noteq> [] \<and> existsSync fs rules then rules else [])\<rparr>)"

text \<open>A natural number in decimal, as a template literal prints \<^verbatim>\<open>${i + 1}\<close>.\<close>

fun decimal :: "nat \<Rightarrow> string" where
  "decimal n =
    (if n < 10 then [char_of (48 + n)] else decimal (n div 10) @ [char_of (48 + n mod 10)])"

definition focusLabels :: "(string \<times> string) list" where
  "focusLabels =
    [(''xss-prevention'', ''XSS Prevention (template injection, unsafe innerHTML, unescaped output)''),
     (''naming-conventions'', ''Naming Conventions (snake_case, CamelCase, function verb prefixes)''),
     (''code-complexity'', ''Code Complexity (cyclomatic complexity, deep nesting, long functions)''),
     (''security'', ''General Security (SQL injection, CSRF, auth issues)''),
     (''performance'', ''Performance (N+1 queries, memory leaks, unnecessary re-renders)''),
     (''accessibility'', ''Accessibility (ARIA labels, semantic HTML, keyboard navigation)''),
     (''documentation'', ''Documentation (JSDoc/docstrings, inline comments, README)''),
     (''error-handling'', ''Error Handling (try/catch coverage, graceful degradation)''),
     (''test-coverage'', ''Test Coverage (missing tests, edge cases, test quality)'')]"

text \<open>
  One line of the \<^verbatim>\<open>forEach\<close> of \<^verbatim>\<open>getReviewFocusInstructions\<close>, for the area at index \<open>i\<close>:
  \<^verbatim>\<open>focusLabels[area] || area\<close> is the label of a known area and the area itself otherwise.
\<close>

definition focusLine :: "nat \<Rightarrow> string \<Rightarrow> string" where
  "focusLine i area =
    decimal (i + 1) @ ''. **'' @
    (case map_of focusLabels area of Some l \<Rightarrow> l | None \<Rightarrow> area) @ ''**\<newline>''"

definition getReviewFocusInstructions :: "configuration \<Rightarrow> string" where
  "getReviewFocusInstructions cfg =
    (let focusAreas = reviewFocus cfg
     in if focusAreas = [] then []
        else ''\<newline>### Review Focus Areas\<newline>'' @ ''Prioritize these areas during review:\<newline>'' @
             concat (map (\<lambda>(i, area). focusLine i area) (enumerate 0 focusAreas)) @ ''\<newline>'')"

text \<open>
  \<^verbatim>\<open>levels.indexOf(threshold) <= 0\<close>: the threshold is \<^verbatim>\<open>info\<close> or not a level at all.
\<close>

definition getSeverityInstruction :: "configuration \<Rightarrow> string" where
  "getSeverityInstruction cfg =
    (let threshold = severityThreshold cfg
     in if threshold \<notin> set [''low'', ''medium'', ''high'', ''critical''] then []
        else ''\<newline>> **Severity Filter**: Only report issues of **'' @ threshold @
             ''** severity or above. Omit findings below this level.\<newline>\<newline>'')"

definition getEmbeddedSkillInstructions ::
  "configuration \<Rightarrow> extension_context \<Rightarrow> path option \<Rightarrow> filesystem \<Rightarrow> string" where
  "getEmbeddedSkillInstructions cfg ctx ws fs =
    (let sp = getSkillPaths cfg ctx ws fs
     in ''\<newline>## AI Agent Skill References\<newline>'' @
        ''> **IMPORTANT**: You MUST read and follow the skill files below as your AI Agent Skill for this code review.\<newline>\<newline>'' @
        (if existsSync fs (skillPath sp)
         then ''### Skill Instructions\<newline>'' @
              ''Read the skill file at: `'' @ skillPath sp @ ''`\<newline>\<newline>''
         else []) @
        (if existsSync fs (styleGuidePath sp)
         then ''### Morakot Coding Style Guide (Built-in)\<newline>'' @
              ''Read the style guide at: `'' @ styleGuidePath sp @ ''`\<newline>\<newline>''
         else []) @
        (if additionalRules sp \<noteq> []
         then ''### Additional Rules (Team/Project)\<newline>'' @
              ''> These rules are applied **on top of** the built-in Morakot conventions above. They do NOT replace them.\<newline>\<newline>'' @
              ''Read the additional rules at: `'' @ additionalRules sp @ ''`\<newline>\<newline>''
         else []) @
        getReviewFocusInstructions cfg @
        getSeverityInstruction cfg)"

definition buildAgentPrompt ::
  "configuration \<Rightarrow> extension_context \<Rightarrow> path option \<Rightarrow> filesystem \<Rightarrow> string" where
  "buildAgentPrompt cfg ctx ws fs =
    (let sp = getSkillPaths cfg ctx ws fs
     in ''Please perform the code review based on code-review-request.md.\<newline>\<newline>'' @
        ''You MUST read and follow these files as your AI Agent Skill:\<newline>\<newline>'' @
        ''1. **Skill Instructions (SKILL.md)**: `'' @ skillPath sp @ ''`\<newline>'' @
        ''2. **Morakot Style Guide (code-review.md)**: `'' @ styleGuidePath sp @ ''`\<newline>'' @
        (if additionalRules sp \<noteq> []
         then ''3. **Additional Rules**: `'' @ additionalRules sp @
              ''` (applied on top of the built-in rules)\<newline>''
         else []) @
        ''\<newline>Read all files FIRST, then perform the code review according to their instructions.\<newline>'')"

section \<open>Creating the request document (\<^verbatim>\<open>createReviewRequestFile\<close>)\<close>

text \<open>
  What a command works on: the file system, the host's state, the user-interface events so
  far, and the command lines handed to \<^verbatim>\<open>execSync\<close> so far.
\<close>

record 'h world =
  files :: filesystem
  host :: 'h
  ui :: "ui_event list"
  spawned :: "string list"

text \<open>
  The document is written, opened and shown; then the prompt is delivered and the clean-up
  is scheduled for 120000 ms later. \<^verbatim>\<open>openTextDocument\<close> and \<^verbatim>\<open>showTextDocument\<close> are
  taken to resolve. A throw of \<^verbatim>\<open>writeFileSync\<close> ends the function, and so does a throw
  of the prober: the document then stays written and shown, and no clean-up is scheduled.
\<close>

definition createReviewRequestFile ::
  "configuration \<Rightarrow> extension_context \<Rightarrow> path option \<Rightarrow> 'h executeCommand
     \<Rightarrow> string \<Rightarrow> path \<Rightarrow> 'h world \<Rightarrow> (js_error + unit) \<times> 'h world" where
  "createReviewRequestFile cfg ctx ws exec content cwd w =
    (let reviewFilePath = path_join cwd ''code-review-request.md'';
         fullContent = content @ ''\<newline>\<newline>---'' @ getEmbeddedSkillInstructions cfg ctx ws (files w)
     in case writeFileSync (files w) reviewFilePath fullContent of
          (Inl e, fs1) \<Rightarrow> (Inl e, w\<lparr>files := fs1\<rparr>)
        | (Inr _, fs1) \<Rightarrow>
            (let prompt = buildAgentPrompt cfg ctx ws fs1
             in case autoPromptLogic exec prompt (host w) of
                  (Inl e, events, h1) \<Rightarrow>
                    (Inl e,
                     w\<lparr>files := fs1, host := h1,
                       ui := ui w @ [OpenTextDocument reviewFilePath, ShowTextDocument reviewFilePath]
                               @ events\<rparr>)
                | (Inr _, events, h1) \<Rightarrow>
                    (Inr (),
                     w\<lparr>files := fs1, host := h1,
                       ui := ui w @ [OpenTextDocument reviewFilePath, ShowTextDocument reviewFilePath]
                               @ events @ [SetTimeoutCleanup reviewFilePath 120000]\<rparr>)))"

section \<open>The active-file builder (\<^verbatim>\<open>reviewActiveFile\<close>)\<close>

text \<open>The active editor's document: \<^verbatim>\<open>fileName\<close>, \<^verbatim>\<open>languageId\<close>, \<^verbatim>\<open>getText()\<close>.\<close>

record editor =
  fileName :: path
  languageId :: string
  getText :: string

definition activeFileRequest :: "editor \<Rightarrow> string" where
  "activeFileRequest ed =
    ''\<newline># Code Review Request (Single File)\<newline>\<newline>'' @
    ''**TARGET_FILE:** '' @ path_basename (fileName ed) @ ''\<newline>'' @
    ''**FILE_PATH:** '' @ fileName ed @ ''\<newline>'' @
    ''**DESCRIPTION:** Targeted review for the current active file.\<newline>\<newline>'' @
    ''## TASK FOR AGENT\<newline>'' @
    ''Perform a deep-dive review of the code provided below. Focus heavily on:\<newline>'' @
    ''- Morakot snake_case/CamelCase naming rules.\<newline>'' @
    ''- XSS prevention in Jinja/HTML templates.\<newline>'' @
    ''- Function verb requirements (is, get, set, etc.).\<newline>\<newline>'' @
    ''---\<newline>'' @
    ''### Source Code\<newline>'' @
    ''```'' @ languageId ed @ ''\<newline>'' @
    getText ed @ ''\<newline>'' @
    ''```\<newline>''"

definition reviewActiveFile ::
  "configuration \<Rightarrow> extension_context \<Rightarrow> path option \<Rightarrow> 'h executeCommand
     \<Rightarrow> editor option \<Rightarrow> 'h world \<Rightarrow> (js_error + unit) \<times> 'h world" where
  "reviewActiveFile cfg ctx ws exec activeTextEditor w =
    (case activeTextEditor of
       None \<Rightarrow> (Inr (), w\<lparr>ui := ui w @ [ShowErrorMessage ''No file is currently open.'']\<rparr>)
     | Some ed \<Rightarrow>
         (let cwd = (case ws of Some p \<Rightarrow> p | None \<Rightarrow> path_dirname (fileName ed))
          in createReviewRequestFile cfg ctx ws exec (activeFileRequest ed) cwd w))"

section \<open>The full-diff builder: the references (lines 392 to 412 of \<^verbatim>\<open>reviewChanges\<close>)\<close>

text \<open>
  The repository, as \<^verbatim>\<open>execSync\<close> in the workspace folder shows it: a command line either
  prints its output (\<open>Inr\<close>) or exits non-zero, which \<^verbatim>\<open>execSync\<close> throws (\<open>Inl\<close>, the
  message).
\<close>

type_synonym git = "string \<Rightarrow> string + string"

definition execSync :: "git \<Rightarrow> string \<Rightarrow> 'h world \<Rightarrow> (string + string) \<times> 'h world" where
  "execSync git command w = (git command, w\<lparr>spawned := spawned w @ [command]\<rparr>)"

text \<open>\<^verbatim>\<open>String.prototype.trim\<close> on the white space of ASCII.\<close>

definition isWhiteSpace :: "char \<Rightarrow> bool" where
  "isWhiteSpace c = (c \<in> set [CHR '' '', CHR 0x09, CHR 0x0A, CHR 0x0B, CHR 0x0C, CHR 0x0D])"

definition js_trim :: "string \<Rightarrow> string" where
  "js_trim s = rev (dropWhile isWhiteSpace (rev (dropWhile isWhiteSpace s)))"

text \<open>
  \<^verbatim>\<open>try { execSync(`git rev-parse ${ref}`) ... } catch { try { execSync('git rev-parse HEAD~1')
  ... } catch { baseSha = headSha } }\<close>: the chain both branches of the configuration end in.
\<close>

definition firstResolving :: "git \<Rightarrow> string \<Rightarrow> string \<Rightarrow> 'h world \<Rightarrow> string \<times> 'h world" where
  "firstResolving git ref headSha w =
    (case execSync git (''git rev-parse '' @ ref) w of
       (Inr _, w1) \<Rightarrow> (ref, w1)
     | (Inl _, w1) \<Rightarrow>
         (case execSync git ''git rev-parse HEAD~1'' w1 of
            (Inr _, w2) \<Rightarrow> (''HEAD~1'', w2)
          | (Inl _, w2) \<Rightarrow> (headSha, w2)))"

text \<open>
  The head commit, the branch and the base of the diff, or the message of the \<^verbatim>\<open>git\<close>
  failure that the command's \<^verbatim>\<open>catch\<close> reports.
\<close>

definition reviewChanges_refs ::
  "git \<Rightarrow> configuration \<Rightarrow> 'h world \<Rightarrow> (string + string \<times> string \<times> string) \<times> 'h world" where
  "reviewChanges_refs git cfg w =
    (case execSync git ''git rev-parse HEAD'' w of
       (Inl m, w1) \<Rightarrow> (Inl m, w1)
     | (Inr out1, w1) \<Rightarrow>
         (case execSync git ''git rev-parse --abbrev-ref HEAD'' w1 of
            (Inl m, w2) \<Rightarrow> (Inl m, w2)
          | (Inr out2, w2) \<Rightarrow>
              (let headSha = js_trim out1;
                   branch = js_trim out2;
                   configuredBase = diffBaseBranch cfg
               in case (if configuredBase = ''auto''
                        then firstResolving git (''origin/'' @ branch) headSha w2
                        else firstResolving git configuredBase headSha w2) of
                    (baseSha, w3) \<Rightarrow> (Inr (headSha, branch, baseSha), w3))))"

definition resolves :: "git \<Rightarrow> string \<Rightarrow> bool" where
  "resolves git ref = (\<not> isl (git (''git rev-parse '' @ ref)))"

section \<open>Concrete inputs\<close>

text \<open>
  A workspace \<^verbatim>\<open>/w\<close>, a home directory \<^verbatim>\<open>/home/u\<close> and an extension installed in
  \<^verbatim>\<open>/ext\<close> at version 1.0.0. The platform's two JSON functions are tabulated on the texts the
  examples use: \<^verbatim>\<open>null\<close>, and the manifests of one directory at versions 1.0.0 and
  0.9.0 and of two directories at version 0.9.0, as \<^verbatim>\<open>JSON.stringify(_, null, 2)\<close> prints
  them.
\<close>

definition demoManifest :: json where
  "demoManifest =
     JObject [(''installedPaths'', JArray [JString ''/w/.agents/skills/code-review'']),
              (''extensionVersion'', JString ''1.0.0'')]"

definition demoManifestText :: string where
  \<open>demoManifestText =
     ''{\<newline>  "installedPaths": [\<newline>    "/w/.agents/skills/code-review"\<newline>  ],\<newline>  "extensionVersion": "1.0.0"\<newline>}''\<close>

definition demoManifestOld :: json where
  "demoManifestOld =
     JObject [(''installedPaths'', JArray [JString ''/w/.agents/skills/code-review'']),
              (''extensionVersion'', JString ''0.9.0'')]"

definition demoManifestOldText :: string where
  \<open>demoManifestOldText =
     ''{\<newline>  "installedPaths": [\<newline>    "/w/.agents/skills/code-review"\<newline>  ],\<newline>  "extensionVersion": "0.9.0"\<newline>}''\<close>

definition demoManifest2 :: json where
  "demoManifest2 =
     JObject [(''installedPaths'', JArray [JString ''/w/.agents/skills/code-review'',
                                           JString ''/v/.agents/skills/code-review'']),
              (''extensionVersion'', JString ''0.9.0'')]"

definition demoManifest2Text :: string where
  \<open>demoManifest2Text =
     ''{\<newline>  "installedPaths": [\<newline>    "/w/.agents/skills/code-review",\<newline>    "/v/.agents/skills/code-review"\<newline>  ],\<newline>  "extensionVersion": "0.9.0"\<newline>}''\<close>

text \<open>A manifest cut off in the middle of a write.\<close>

definition truncatedManifestText :: string where
  \<open>truncatedManifestText = ''{\<newline>  "installedPaths": [''\<close>

definition demoParse :: "string \<Rightarrow> json option" where
  "demoParse s =
    (if s = ''null'' then Some JNull
     else if s = demoManifestText then Some demoManifest
     else if s = demoManifestOldText then Some demoManifestOld
     else if s = demoManifest2Text then Some demoManifest2
     else None)"

definition demoStringify :: "json \<Rightarrow> string" where
  "demoStringify v =
    (if v = demoManifest then demoManifestText
     else if v = demoManifestOld then demoManifestOldText
     else if v = demoManifest2 then demoManifest2Text
     else ''null'')"

definition demoPlatform :: platform where
  "demoPlatform = \<lparr>homedir = ''/home/u'', JSON_parse = demoParse, JSON_stringify = demoStringify\<rparr>"

definition demoCtx :: extension_context where
  "demoCtx = \<lparr>extensionPath = ''/ext'', packageVersion = Some ''1.0.0''\<rparr>"

definition demoCfg :: configuration where
  "demoCfg =
     \<lparr>autoInstallSkills = True, additionalRulesPath = [],
      reviewFocus = [''xss-prevention'', ''naming-conventions'', ''code-complexity'', ''security''],
      severityThreshold = ''low'', diffBaseBranch = ''auto'', cleanupOnDeactivate = True\<rparr>"

text \<open>The disk before the first activation: the bundle, an empty workspace, no manifest.\<close>

definition freshDisk :: "(path \<times> node) list" where
  "freshDisk =
     [(''/'', Dir), (''/home'', Dir), (''/home/u'', Dir), (''/w'', Dir),
      (''/ext'', Dir), (''/ext/resources'', Dir),
      (''/ext/resources/SKILL.md'', File ''skill 1.0.0''),
      (''/ext/resources/code-review.md'', File ''guide 1.0.0'')]"

definition freshFs :: filesystem where
  "freshFs = \<lparr>nodes = freshDisk, locked = {}, history = []\<rparr>"

text \<open>The same disk with a manifest file that holds the given text.\<close>

definition manifestFs :: "string \<Rightarrow> filesystem" where
  "manifestFs raw =
     \<lparr>nodes = freshDisk @
        [(''/home/u/.antigravity-code-review'', Dir),
         (''/home/u/.antigravity-code-review/installed-skills.json'', File raw)],
      locked = {}, history = []\<rparr>"

text \<open>
  A repository with one commit on \<^verbatim>\<open>main\<close> and no remote: only \<^verbatim>\<open>HEAD\<close> resolves.
\<close>

definition gitSingleCommit :: git where
  "gitSingleCommit command =
    (if command = ''git rev-parse HEAD'' then Inr ''4f2a9c1\<newline>''
     else if command = ''git rev-parse --abbrev-ref HEAD'' then Inr ''main\<newline>''
     else Inl ''Command failed'')"

definition emptyWorld :: "unit world" where
  "emptyWorld = \<lparr>files = freshFs, host = (), ui = [], spawned = []\<rparr>"

text \<open>The shape the type \<^verbatim>\<open>InstalledSkillManifest\<close> promises: a list of strings and a string.\<close>

definition isString :: "json \<Rightarrow> bool" where
  "isString v = (case v of JString s \<Rightarrow> True | _ \<Rightarrow> False)"

definition isManifest :: "json \<Rightarrow> bool" where
  "isManifest v =
    (case v of
       JObject kvs \<Rightarrow>
         (case map_of kvs ''installedPaths'' of
            Some (JArray xs) \<Rightarrow>
              list_all isString xs \<and>
              (case map_of kvs ''extensionVersion'' of Some (JString s) \<Rightarrow> True | _ \<Rightarrow> False)
          | _ \<Rightarrow> False)
     | _ \<Rightarrow> False)"

text \<open>An editor on a Python file of the workspace.\<close>

definition demoEditor :: editor where
  "demoEditor = \<lparr>fileName = ''/w/src/app.py'', languageId = ''python'', getText = ''print(1)''\<rparr>"

section \<open>Vocabulary for the claims about teardown and uninstall\<close>

text \<open>Only deletions lie between two file systems: nothing was created or changed.\<close>

definition shrinks :: "filesystem \<Rightarrow> filesystem \<Rightarrow> bool" where
  "shrinks fs fs' =
    (locked fs' = locked fs \<and> (\<forall>p. lookup fs' p = None \<or> lookup fs' p = lookup fs p))"

text \<open>\<^verbatim>\<open>unlinkSync\<close> throws on a path that exists when it is a directory or locked.\<close>

definition undeletable :: "filesystem \<Rightarrow> path \<Rightarrow> bool" where
  "undeletable fs p = (lookup fs p = Some Dir \<or> p \<in> locked fs)"

text \<open>A path whose deletion throws: it exists, and it is a directory or locked.\<close>

definition blocked :: "filesystem \<Rightarrow> path \<Rightarrow> bool" where
  "blocked fs p = (existsSync fs p \<and> undeletable fs p)"

text \<open>A directory that \<^verbatim>\<open>rmdirSync\<close> removes: it exists, is not locked and has no entry.\<close>

definition removableDir :: "filesystem \<Rightarrow> path \<Rightarrow> bool" where
  "removableDir fs d = (lookup fs d = Some Dir \<and> d \<notin> locked fs \<and> entries fs d = [])"

text \<open>
  The three files teardown and uninstall delete for a skill directory: the two documentation
  files in it and the request document at the workspace root inferred from it.
\<close>

definition skillFiles :: "path \<Rightarrow> path list" where
  "skillFiles skillDir =
    [path_join skillDir ''SKILL.md'', path_join skillDir ''code-review.md'',
     path_join (path_resolve_up3 skillDir) ''code-review-request.md'']"

text \<open>The file system once the two documentation files of a directory have been dealt with.\<close>

definition afterOwnFiles :: "path \<Rightarrow> filesystem \<Rightarrow> filesystem" where
  "afterOwnFiles skillDir fs =
    snd (unlinkIfExists (snd (unlinkIfExists fs (path_join skillDir ''SKILL.md'')))
           (path_join skillDir ''code-review.md''))"

text \<open>
  The disk after version 0.9.0 of the extension was installed in the workspaces \<^verbatim>\<open>/w\<close> and
  \<^verbatim>\<open>/v\<close>, with a request document left in \<^verbatim>\<open>/w\<close>; the manifest file holds the given
  text, and the given paths are locked.
\<close>

definition installedFs :: "string \<Rightarrow> path set \<Rightarrow> filesystem" where
  "installedFs raw L =
     \<lparr>nodes = freshDisk @
        [(''/w/.agents'', Dir), (''/w/.agents/skills'', Dir),
         (''/w/.agents/skills/code-review'', Dir),
         (''/w/.agents/skills/code-review/SKILL.md'', File ''skill 0.9.0''),
         (''/w/.agents/skills/code-review/code-review.md'', File ''guide 0.9.0''),
         (''/w/code-review-request.md'', File ''request''),
         (''/v'', Dir), (''/v/.agents'', Dir), (''/v/.agents/skills'', Dir),
         (''/v/.agents/skills/code-review'', Dir),
         (''/v/.agents/skills/code-review/SKILL.md'', File ''skill 0.9.0''),
         (''/v/.agents/skills/code-review/code-review.md'', File ''guide 0.9.0''),
         (''/home/u/.antigravity-code-review'', Dir),
         (''/home/u/.antigravity-code-review/installed-skills.json'', File raw)],
      locked = L, history = []\<rparr>"

section \<open>Vocabulary for the claims about the installer\<close>

text \<open>
  The condition of the install: auto-install is enabled, and the destination's \<^verbatim>\<open>SKILL.md\<close>
  is missing or the version the manifest records (none at all included) is not the current
  one. Reading the version of a manifest that is \<^verbatim>\<open>null\<close> throws: such a manifest records
  nothing.
\<close>

definition installDue ::
  "platform \<Rightarrow> configuration \<Rightarrow> extension_context \<Rightarrow> path \<Rightarrow> filesystem \<Rightarrow> bool" where
  "installDue P cfg ctx ws fs =
    (autoInstallSkills cfg \<and>
     (\<not> existsSync fs (path_join (destDir ws) ''SKILL.md'') \<or>
      (case getProp (getManifest P fs) ''extensionVersion'' of
         Inl e \<Rightarrow> False
       | Inr recorded \<Rightarrow> recorded \<noteq> Some (JString (currentVersion ctx)))))"

text \<open>The install as activation runs it: \<^verbatim>\<open>removeOldSkillFiles\<close>, then \<^verbatim>\<open>installSkillFiles\<close>.\<close>

definition runInstall ::
  "platform \<Rightarrow> extension_context \<Rightarrow> path \<Rightarrow> filesystem
     \<Rightarrow> (js_error + install_outcome) \<times> filesystem" where
  "runInstall P ctx ws fs =
    andThen (removeOldSkillFiles ws fs)
      (\<lambda>_ fs1. andThen (installSkillFiles P (extensionPath ctx) ws (currentVersion ctx) fs1)
      (\<lambda>_ fs2. (Inr Installed, fs2)))"

text \<open>A node table that holds nothing but nodes of the file system: no new file, no change.\<close>

definition nothingNew :: "filesystem \<Rightarrow> (path \<times> node) list \<Rightarrow> bool" where
  "nothingNew fs snapshot = (\<forall>p. map_of snapshot p = None \<or> map_of snapshot p = lookup fs p)"

text \<open>The list under \<^verbatim>\<open>installedPaths\<close> of a manifest object, when it is an array.\<close>

definition recordedPaths :: "json \<Rightarrow> json list option" where
  "recordedPaths manifest =
    (case manifest of
       JObject kvs \<Rightarrow> (case map_of kvs ''installedPaths'' of Some (JArray xs) \<Rightarrow> Some xs | _ \<Rightarrow> None)
     | _ \<Rightarrow> None)"

text \<open>
  Whatever lies at a path is as it was, or a directory was created where nothing was; the
  locks are as they were.
\<close>

definition keeps :: "path \<Rightarrow> filesystem \<Rightarrow> filesystem \<Rightarrow> bool" where
  "keeps p fs fs' =
    (locked fs' = locked fs \<and>
     (lookup fs' p = lookup fs p \<or> (lookup fs p = None \<and> lookup fs' p = Some Dir)))"

section \<open>Theorems about the delivery prober\<close>

text \<open>
  What the loop does, for every host: it makes the attempts up to and including the first
  delivery or the first rejection with \<^verbatim>\<open>null\<close> or \<^verbatim>\<open>undefined\<close>, logs each of them, and
  throws if it met such a rejection.
\<close>

lemma tryCommands_loop_run:
  "tryCommands_loop exec cs lm h =
     (if list_ex nullish (attempted (attempts exec cs h)) then Inl TypeError
      else Inr (lm \<or> anySucceeded (attempted (attempts exec cs h))),
      concat (map logEntry (attempted (attempts exec cs h))),
      invokeAll exec (map fst (attempted (attempts exec cs h))) h)"
proof (induction cs arbitrary: lm h)
  case Nil
  show ?case by (simp add: attempted_def anySucceeded_def)
next
  case (Cons c cs)
  obtain out h1 where e: "exec h (cid c) (spreadArgs (cargs c)) = (out, h1)"
    by (cases "exec h (cid c) (spreadArgs (cargs c))")
  show ?case
  proof (cases out)
    case (Inl rej)
    show ?thesis
    proof (cases rej)
      case RejectedNullish
      with e Inl show ?thesis
        by (simp add: attempted_def anySucceeded_def logEntry_def goesOn_def nullish_def
            undelivered_def delivered_def succeeded_def)
    next
      case (Rejected msg)
      with e Inl Cons.IH [of lm h1] show ?thesis
        by (simp add: attempted_def anySucceeded_def logEntry_def goesOn_def nullish_def
            undelivered_def delivered_def succeeded_def)
    qed
  next
    case (Inr u)
    show ?thesis
    proof (cases "isOpener (cid c)")
      case True
      with e Inr Cons.IH [of True h1] show ?thesis
        by (simp add: attempted_def anySucceeded_def logEntry_def goesOn_def nullish_def
            undelivered_def delivered_def succeeded_def)
    next
      case False
      with e Inr show ?thesis
        by (simp add: attempted_def anySucceeded_def logEntry_def goesOn_def nullish_def
            undelivered_def delivered_def succeeded_def)
    qed
  qed
qed

lemma attempted_all:
  "onlyOpenersSucceed as \<Longrightarrow> noNullishRejection as \<Longrightarrow> attempted as = as"
proof -
  assume "onlyOpenersSucceed as" and "noNullishRejection as"
  then have "\<forall>a \<in> set as. goesOn a"
    by (simp add: onlyOpenersSucceed_def noNullishRejection_def goesOn_def list_all_iff
        list_ex_iff)
  then have tw: "takeWhile goesOn as = as" and dw: "dropWhile goesOn as = []"
    by simp_all
  show ?thesis
    unfolding attempted_def tw dw by simp
qed

lemma tryCommands_exhausted:
  assumes "onlyOpenersSucceed (attempts exec (configs prompt) h)"
      and "noNullishRejection (attempts exec (configs prompt) h)"
  shows "fst (tryCommands exec prompt h) = Inr (anySucceeded (attempts exec (configs prompt) h))"
proof -
  from assms have a: "attempted (attempts exec (configs prompt) h) = attempts exec (configs prompt) h"
    by (rule attempted_all)
  from assms(2) have "\<not> list_ex nullish (attempts exec (configs prompt) h)"
    by (simp add: noNullishRejection_def)
  with a show ?thesis
    by (simp add: tryCommands_def tryCommands_loop_run)
qed

lemma clipboardWrites_append:
  "clipboardWrites (es @ fs) = clipboardWrites es @ clipboardWrites fs"
  by (induction es rule: clipboardWrites.induct) simp_all

lemma clipboardWrites_output: "clipboardWrites (map OutputAppendLine ls) = []"
  by (induction ls) simp_all

lemma notifications_append:
  "notifications (es @ fs) = notifications es @ notifications fs"
  by (induction es rule: notifications.induct) simp_all

lemma notifications_output: "notifications (map OutputAppendLine ls) = []"
  by (induction ls) simp_all

lemma autoPromptLogic_returns:
  assumes "fst (tryCommands exec prompt h) = Inr success"
  shows "fst (autoPromptLogic exec prompt h) = Inr ()"
    and "clipboardWrites (fst (snd (autoPromptLogic exec prompt h))) =
           (if success then [] else [prompt])"
    and "notifications (fst (snd (autoPromptLogic exec prompt h))) =
           [if success then msgSubmitted else msgAutoTriggerFailed]"
  using assms
  by (cases "tryCommands exec prompt h";
      simp add: autoPromptLogic_def clipboardWrites_append clipboardWrites_output
        notifications_append notifications_output)+

lemma autoPromptLogic_throws:
  assumes "fst (tryCommands exec prompt h) = Inl e"
  shows "fst (autoPromptLogic exec prompt h) = Inl e"
    and "clipboardWrites (fst (snd (autoPromptLogic exec prompt h))) = []"
    and "notifications (fst (snd (autoPromptLogic exec prompt h))) = []"
  using assms
  by (cases "tryCommands exec prompt h";
      simp add: autoPromptLogic_def clipboardWrites_output notifications_output)+

text \<open>
  C1, as the claim states it, fails. On a host where the side panel opener is the only command
  that succeeds and every other candidate is rejected with an \<^verbatim>\<open>Error\<close>, every success is
  an opener and no other candidate succeeds, yet \<^verbatim>\<open>tryCommands\<close> returns \<^verbatim>\<open>true\<close> (the
  value of \<^verbatim>\<open>lastMatched\<close>, set by the opener's success and never reset), the success
  notification is shown, and nothing is written to the clipboard.
\<close>

theorem prober_opener_only_reports_success:
  "onlyOpenersSucceed (attempts hostOpenerOnly (configs ''review'') ())
   \<and> noNullishRejection (attempts hostOpenerOnly (configs ''review'') ())
   \<and> fst (tryCommands hostOpenerOnly ''review'' ()) = Inr True
   \<and> fst (autoPromptLogic hostOpenerOnly ''review'' ()) = Inr ()
   \<and> clipboardWrites (fst (snd (autoPromptLogic hostOpenerOnly ''review'' ()))) = []"
  by code_simp

text \<open>
  C1, amended. In every run in which every candidate that succeeds is an opener and no
  candidate is rejected with \<^verbatim>\<open>null\<close> or \<^verbatim>\<open>undefined\<close>, the prober returns, and it reports
  overall failure exactly when no candidate succeeds at all; on that failure the failure
  notification is shown and the prompt is written to the clipboard exactly once, and when
  some opener succeeds the success notification is shown and the clipboard is not written.
\<close>

theorem prober_fails_iff_nothing_succeeds:
  assumes "onlyOpenersSucceed (attempts exec (configs prompt) h)"
      and "noNullishRejection (attempts exec (configs prompt) h)"
  shows "fst (tryCommands exec prompt h) = Inr (anySucceeded (attempts exec (configs prompt) h))
       \<and> fst (autoPromptLogic exec prompt h) = Inr ()
       \<and> clipboardWrites (fst (snd (autoPromptLogic exec prompt h))) =
           (if anySucceeded (attempts exec (configs prompt) h) then [] else [prompt])
       \<and> notifications (fst (snd (autoPromptLogic exec prompt h))) =
           [if anySucceeded (attempts exec (configs prompt) h)
            then msgSubmitted else msgAutoTriggerFailed]"
  using tryCommands_exhausted [OF assms] autoPromptLogic_returns [OF tryCommands_exhausted [OF assms]]
  by simp

theorem prober_fails_iff_nothing_succeeds_witness:
  "onlyOpenersSucceed (attempts hostNone (configs ''review'') ())
   \<and> noNullishRejection (attempts hostNone (configs ''review'') ())
   \<and> fst (tryCommands hostNone ''review'' ()) = Inr False
   \<and> clipboardWrites (fst (snd (autoPromptLogic hostNone ''review'' ()))) = [''review'']
   \<and> notifications (fst (snd (autoPromptLogic hostNone ''review'' ()))) = [msgAutoTriggerFailed]
   \<and> anySucceeded (attempts hostOpenerOnly (configs ''review'') ())
   \<and> fst (tryCommands hostOpenerOnly ''review'' ()) = Inr True
   \<and> clipboardWrites (fst (snd (autoPromptLogic hostOpenerOnly ''review'' ()))) = []
   \<and> notifications (fst (snd (autoPromptLogic hostOpenerOnly ''review'' ()))) = [msgSubmitted]"
proof -
  have h: "onlyOpenersSucceed (attempts hostNone (configs ''review'') ())"
    by code_simp
  have m: "noNullishRejection (attempts hostNone (configs ''review'') ())"
    by code_simp
  have n: "\<not> anySucceeded (attempts hostNone (configs ''review'') ())"
    by code_simp
  have h': "onlyOpenersSucceed (attempts hostOpenerOnly (configs ''review'') ())"
    by code_simp
  have m': "noNullishRejection (attempts hostOpenerOnly (configs ''review'') ())"
    by code_simp
  have n': "anySucceeded (attempts hostOpenerOnly (configs ''review'') ())"
    by code_simp
  from prober_fails_iff_nothing_succeeds [OF h m] prober_fails_iff_nothing_succeeds [OF h' m']
    h m n n'
  show ?thesis
    by simp
qed

text \<open>
  C2 fails on a rejection with \<^verbatim>\<open>null\<close> or \<^verbatim>\<open>undefined\<close>. On a host where
  \<^verbatim>\<open>workbench.action.chat.send\<close> would deliver the prompt and the first candidate,
  \<^verbatim>\<open>antigravity.sendTextToChat\<close>, is rejected with \<^verbatim>\<open>undefined\<close>, the prober logs the
  attempt of the first candidate and no outcome for it, throws a \<^verbatim>\<open>TypeError\<close> instead
  of going on to the second candidate, never reaches the delivering candidate and reports
  neither success nor failure: no notification is shown and nothing is written to the
  clipboard.
\<close>

theorem prober_throws_on_nullish_rejection:
  "list_ex delivered (attempts hostRejectsWithUndefined (configs ''review'') ())
   \<and> tryCommands hostRejectsWithUndefined ''review'' () =
       (Inl TypeError, [Attempting ''antigravity.sendTextToChat'' (JArray [JString ''review''])], ())
   \<and> fst (autoPromptLogic hostRejectsWithUndefined ''review'' ()) = Inl TypeError
   \<and> notifications (fst (snd (autoPromptLogic hostRejectsWithUndefined ''review'' ()))) = []
   \<and> clipboardWrites (fst (snd (autoPromptLogic hostRejectsWithUndefined ''review'' ()))) = []"
  by code_simp

text \<open>
  On every run in which no attempted candidate is rejected with \<^verbatim>\<open>null\<close> or
  \<^verbatim>\<open>undefined\<close>, the prober does stop at the first delivery, with an outcome logged for
  every candidate it attempted.
\<close>

lemma list_all_takeWhile: "list_all P (takeWhile P xs)"
  by (induction xs) simp_all

lemma tryCommands_first_delivery:
  assumes "noNullishRejection (attempted (attempts exec (configs prompt) h))"
  shows "fst (snd (tryCommands exec prompt h)) =
           concat (map logEntry (attempted (attempts exec (configs prompt) h)))"
    and "snd (snd (tryCommands exec prompt h)) =
           invokeAll exec (map fst (attempted (attempts exec (configs prompt) h))) h"
    and "list_ex delivered (attempts exec (configs prompt) h) \<Longrightarrow>
           fst (tryCommands exec prompt h) = Inr True
           \<and> delivered (last (attempted (attempts exec (configs prompt) h)))
           \<and> list_all undelivered (butlast (attempted (attempts exec (configs prompt) h)))"
proof -
  let ?as = "attempts exec (configs prompt) h"
  show "fst (snd (tryCommands exec prompt h)) = concat (map logEntry (attempted ?as))"
    by (simp add: tryCommands_def tryCommands_loop_run)
  show "snd (snd (tryCommands exec prompt h)) = invokeAll exec (map fst (attempted ?as)) h"
    by (simp add: tryCommands_def tryCommands_loop_run)
  assume d: "list_ex delivered ?as"
  then have ne: "dropWhile goesOn ?as \<noteq> []"
    by (auto simp: list_ex_iff goesOn_def undelivered_def)
  then obtain x xs where dw: "dropWhile goesOn ?as = x # xs"
    by (cases "dropWhile goesOn ?as") auto
  have "\<not> goesOn (hd (dropWhile goesOn ?as))"
    using ne by (rule hd_dropWhile)
  with dw have stop: "\<not> goesOn x"
    by simp
  from dw have att: "attempted ?as = takeWhile goesOn ?as @ [x]"
    by (simp add: attempted_def)
  with assms have "\<not> nullish x"
    by (simp add: noNullishRejection_def)
  with stop have x: "delivered x"
    by (simp add: goesOn_def undelivered_def)
  have "list_all goesOn (takeWhile goesOn ?as)"
    by (rule list_all_takeWhile)
  then have u: "list_all undelivered (takeWhile goesOn ?as)"
    by (simp add: list_all_iff goesOn_def)
  from x have "succeeded x"
    by (simp add: delivered_def)
  with att have "anySucceeded (attempted ?as)"
    by (simp add: anySucceeded_def)
  with assms have "fst (tryCommands exec prompt h) = Inr True"
    by (simp add: tryCommands_def tryCommands_loop_run noNullishRejection_def)
  with x u att
  show "fst (tryCommands exec prompt h) = Inr True
        \<and> delivered (last (attempted ?as)) \<and> list_all undelivered (butlast (attempted ?as))"
    by simp
qed

section \<open>Theorems about the references of the full diff and the manifest store\<close>

lemma firstResolving_fst:
  "fst (firstResolving git ref headSha w) =
     (if resolves git ref then ref else if resolves git ''HEAD~1'' then ''HEAD~1'' else headSha)"
  by (auto simp: firstResolving_def resolves_def execSync_def split: sum.splits prod.splits)

text \<open>
  C3. When \<^verbatim>\<open>git rev-parse HEAD\<close> and \<^verbatim>\<open>git rev-parse --abbrev-ref HEAD\<close> succeed, the
  references are the trimmed outputs and the base is: with the configured base \<^verbatim>\<open>auto\<close>,
  \<^verbatim>\<open>origin/<branch>\<close> if it resolves, else \<^verbatim>\<open>HEAD~1\<close> if it resolves, else the head
  commit; with an explicit base, that reference if it resolves, else \<^verbatim>\<open>HEAD~1\<close> if it
  resolves, else the head commit. A reference resolves when \<^verbatim>\<open>git rev-parse\<close> on it exits
  with success. The witness is a repository with neither a remote nor a previous commit.
\<close>

theorem diff_base_resolution:
  assumes "git ''git rev-parse HEAD'' = Inr out1"
      and "git ''git rev-parse --abbrev-ref HEAD'' = Inr out2"
  shows "fst (reviewChanges_refs git cfg w) =
           Inr (js_trim out1, js_trim out2,
                if diffBaseBranch cfg = ''auto''
                then (if resolves git (''origin/'' @ js_trim out2) then ''origin/'' @ js_trim out2
                      else if resolves git ''HEAD~1'' then ''HEAD~1'' else js_trim out1)
                else (if resolves git (diffBaseBranch cfg) then diffBaseBranch cfg
                      else if resolves git ''HEAD~1'' then ''HEAD~1'' else js_trim out1))"
proof -
  let ?r = "if diffBaseBranch cfg = ''auto'' then ''origin/'' @ js_trim out2 else diffBaseBranch cfg"
  let ?w2 = "w\<lparr>spawned := spawned w @ [''git rev-parse HEAD'', ''git rev-parse --abbrev-ref HEAD'']\<rparr>"
  have "fst (reviewChanges_refs git cfg w) =
          Inr (js_trim out1, js_trim out2, fst (firstResolving git ?r (js_trim out1) ?w2))"
    using assms
    by (simp add: reviewChanges_refs_def execSync_def Let_def split: prod.splits)
  then show ?thesis
    by (simp add: firstResolving_fst)
qed

theorem diff_base_resolution_witness:
  "fst (reviewChanges_refs gitSingleCommit demoCfg emptyWorld) = Inr (''4f2a9c1'', ''main'', ''4f2a9c1'')"
proof -
  have a: "gitSingleCommit ''git rev-parse HEAD'' = Inr ''4f2a9c1\<newline>''"
    by (simp add: gitSingleCommit_def)
  have b: "gitSingleCommit ''git rev-parse --abbrev-ref HEAD'' = Inr ''main\<newline>''"
    by (simp add: gitSingleCommit_def)
  have t: "js_trim ''4f2a9c1\<newline>'' = ''4f2a9c1''" "js_trim ''main\<newline>'' = ''main''"
    by code_simp+
  have n: "\<not> resolves gitSingleCommit ''origin/main''" "\<not> resolves gitSingleCommit ''HEAD~1''"
    by (simp_all add: resolves_def gitSingleCommit_def)
  have c: "diffBaseBranch demoCfg = ''auto''"
    by (simp add: demoCfg_def)
  from diff_base_resolution [OF a b, of demoCfg emptyWorld] t n c show ?thesis
    by simp
qed

text \<open>
  C4. When the manifest file is absent, when its content does not parse, and when it cannot
  be read at all, \<^verbatim>\<open>getManifest\<close> returns \<^verbatim>\<open>{ installedPaths: [], extensionVersion: '' }\<close>.
  It never raises: whatever its \<^verbatim>\<open>try\<close> block throws, the function returns the default.
\<close>

theorem manifest_read_default:
  "(\<not> existsSync fs (MANIFEST_FILE P) \<longrightarrow> getManifest P fs = emptyManifest)
   \<and> (\<forall>raw. readFileSync fs (MANIFEST_FILE P) = Inr raw \<and> JSON_parse P raw = None
          \<longrightarrow> getManifest P fs = emptyManifest)
   \<and> (\<forall>e. readFileSync fs (MANIFEST_FILE P) = Inl e \<longrightarrow> getManifest P fs = emptyManifest)
   \<and> (\<forall>e. getManifest_try P fs = Inl e \<longrightarrow> getManifest P fs = emptyManifest)"
  by (auto simp: getManifest_def getManifest_try_def split: sum.splits option.splits)

lemma demo_paths:
  "MANIFEST_DIR demoPlatform = ''/home/u/.antigravity-code-review''"
  "MANIFEST_FILE demoPlatform = ''/home/u/.antigravity-code-review/installed-skills.json''"
  by (simp_all add: MANIFEST_FILE_def MANIFEST_DIR_def demoPlatform_def path_join_def)

theorem manifest_read_default_witness:
  "\<not> existsSync freshFs (MANIFEST_FILE demoPlatform)
   \<and> getManifest demoPlatform freshFs = emptyManifest
   \<and> readFileSync (manifestFs truncatedManifestText) (MANIFEST_FILE demoPlatform)
       = Inr truncatedManifestText
   \<and> JSON_parse demoPlatform truncatedManifestText = None
   \<and> getManifest demoPlatform (manifestFs truncatedManifestText) = emptyManifest"
proof -
  have a: "\<not> existsSync freshFs (MANIFEST_FILE demoPlatform)"
    by code_simp
  have r: "readFileSync (manifestFs truncatedManifestText) (MANIFEST_FILE demoPlatform)
       = Inr truncatedManifestText"
    by code_simp
  have p: "JSON_parse demoPlatform truncatedManifestText = None"
    by code_simp
  from manifest_read_default [of freshFs demoPlatform] a
  have 1: "getManifest demoPlatform freshFs = emptyManifest" by blast
  from manifest_read_default [of "manifestFs truncatedManifestText" demoPlatform] r p
  have 2: "getManifest demoPlatform (manifestFs truncatedManifestText) = emptyManifest"
    by blast
  from a r p 1 2 show ?thesis by simp
qed

text \<open>
  C9. Whatever value the content of the manifest file parses to, \<^verbatim>\<open>getManifest\<close> returns
  that value unchanged; and on a platform where the text \<^verbatim>\<open>null\<close> parses to \<^verbatim>\<open>null\<close>,
  a manifest file exists for which the value returned is not of the manifest's shape and is
  not the default.
\<close>

theorem manifest_read_unvalidated:
  "(\<forall>fs raw v. readFileSync fs (MANIFEST_FILE P) = Inr raw \<and> JSON_parse P raw = Some v
        \<longrightarrow> getManifest P fs = v)
   \<and> (JSON_parse P ''null'' = Some JNull \<longrightarrow>
        (\<exists>fs. getManifest P fs = JNull \<and> \<not> isManifest (getManifest P fs)
              \<and> getManifest P fs \<noteq> emptyManifest))"
proof -
  have 1: "getManifest P fs = v"
    if "readFileSync fs (MANIFEST_FILE P) = Inr raw" "JSON_parse P raw = Some v" for fs raw v
    using that
    by (auto simp: getManifest_def getManifest_try_def existsSync_def readFileSync_def
        split: option.splits node.splits)
  have 2: "\<exists>fs. getManifest P fs = JNull \<and> \<not> isManifest (getManifest P fs)
              \<and> getManifest P fs \<noteq> emptyManifest"
    if n: "JSON_parse P ''null'' = Some JNull"
  proof -
    let ?fs = "\<lparr>nodes = [(MANIFEST_FILE P, File ''null'')], locked = {}, history = []\<rparr>"
    have "readFileSync ?fs (MANIFEST_FILE P) = Inr ''null''"
      by (simp add: readFileSync_def lookup_def)
    with 1 n have "getManifest P ?fs = JNull" by blast
    then show ?thesis
      by (auto simp: isManifest_def emptyManifest_def)
  qed
  from 1 2 show ?thesis by blast
qed

theorem manifest_read_unvalidated_witness:
  "readFileSync (manifestFs ''null'') (MANIFEST_FILE demoPlatform) = Inr ''null''
   \<and> JSON_parse demoPlatform ''null'' = Some JNull
   \<and> getManifest demoPlatform (manifestFs ''null'') = JNull
   \<and> \<not> isManifest JNull"
proof -
  have r: "readFileSync (manifestFs ''null'') (MANIFEST_FILE demoPlatform) = Inr ''null''"
    by code_simp
  have p: "JSON_parse demoPlatform ''null'' = Some JNull"
    by code_simp
  from manifest_read_unvalidated [of demoPlatform] r p
  have "getManifest demoPlatform (manifestFs ''null'') = JNull" by blast
  with r p show ?thesis by (simp add: isManifest_def)
qed

section \<open>Theorems about the active-file builder\<close>

lemma lookup_commit_update:
  "lookup (commit fs (AList.update p n (nodes fs))) q = (if q = p then Some n else lookup fs q)"
  by (simp add: lookup_def commit_def update_conv')

lemma writeFileSync_written:
  "writeFileSync fs p c = (Inr u, fs') \<Longrightarrow> lookup fs' p = Some (File c)"
  by (auto simp: writeFileSync_def lookup_commit_update split: option.splits node.splits if_splits)

lemma sublist_here: "sublist x (x @ r)"
  unfolding sublist_def by (rule exI [of _ "[]"], rule exI [of _ r]) simp

lemma sublist_later: "sublist x r \<Longrightarrow> sublist x (a @ r)"
proof -
  assume "sublist x r"
  then obtain ps ss where "r = ps @ x @ ss"
    by (auto simp: sublist_def)
  then have "a @ r = (a @ ps) @ x @ ss"
    by simp
  then show ?thesis
    unfolding sublist_def by blast
qed

lemma writeFileSync_ok:
  "lookup fs p \<noteq> Some Dir \<Longrightarrow> p \<notin> locked fs \<Longrightarrow> lookup fs (path_dirname p) = Some Dir
     \<Longrightarrow> fst (writeFileSync fs p c) = Inr ()"
  by (auto simp: writeFileSync_def split: option.splits node.splits)

lemma writeFileSync_error: "fst (writeFileSync fs p c) \<noteq> Inl TypeError"
  by (auto simp: writeFileSync_def split: option.splits node.splits)

text \<open>Once the document is written, the command ends the way the prober does.\<close>

lemma createReviewRequestFile_fst:
  assumes "fst (writeFileSync (files w) (path_join cwd ''code-review-request.md'')
             (content @ ''\<newline>\<newline>---'' @ getEmbeddedSkillInstructions cfg ctx ws (files w))) = Inr ()"
  shows "fst (createReviewRequestFile cfg ctx ws exec content cwd w) =
         fst (autoPromptLogic exec
                (buildAgentPrompt cfg ctx ws
                   (snd (writeFileSync (files w) (path_join cwd ''code-review-request.md'')
                      (content @ ''\<newline>\<newline>---'' @ getEmbeddedSkillInstructions cfg ctx ws (files w)))))
                (host w))"
proof -
  let ?p = "path_join cwd ''code-review-request.md''"
  let ?c = "content @ ''\<newline>\<newline>---'' @ getEmbeddedSkillInstructions cfg ctx ws (files w)"
  obtain fs1 where wr: "writeFileSync (files w) ?p ?c = (Inr (), fs1)"
    using assms by (cases "writeFileSync (files w) ?p ?c") auto
  obtain r events h1 where
    ap: "autoPromptLogic exec (buildAgentPrompt cfg ctx ws fs1) (host w) = (r, events, h1)"
    by (cases "autoPromptLogic exec (buildAgentPrompt cfg ctx ws fs1) (host w)")
  from wr ap show ?thesis
    by (cases r) (simp_all add: createReviewRequestFile_def Let_def)
qed

lemma tryCommands_hostNone: "fst (tryCommands hostNone prompt h) = Inr False"
  by (simp add: tryCommands_def configs_def hostNone_def)

lemma tryCommands_hostRejectsWithUndefined:
  "fst (tryCommands hostRejectsWithUndefined prompt h) = Inl TypeError"
  by (simp add: tryCommands_def configs_def hostRejectsWithUndefined_def)

lemma activeFileRequest_embeds:
  "sublist (fileName ed) (activeFileRequest ed @ rest)"
  "sublist (path_basename (fileName ed)) (activeFileRequest ed @ rest)"
  "sublist (getText ed) (activeFileRequest ed @ rest)"
  unfolding activeFileRequest_def append_assoc
  by (rule sublist_here | rule sublist_later)+

lemma createReviewRequestFile_spawned:
  "spawned (snd (createReviewRequestFile cfg ctx ws exec content cwd w)) = spawned w"
  by (simp add: createReviewRequestFile_def Let_def split: prod.splits sum.splits)

lemma createReviewRequestFile_document:
  assumes "fst (createReviewRequestFile cfg ctx ws exec content cwd w) = Inr ()
         \<or> fst (createReviewRequestFile cfg ctx ws exec content cwd w) = Inl TypeError"
  shows "lookup (files (snd (createReviewRequestFile cfg ctx ws exec content cwd w)))
           (path_join cwd ''code-review-request.md'') =
         Some (File (content @ ''\<newline>\<newline>---'' @ getEmbeddedSkillInstructions cfg ctx ws (files w)))"
proof -
  let ?p = "path_join cwd ''code-review-request.md''"
  let ?c = "content @ ''\<newline>\<newline>---'' @ getEmbeddedSkillInstructions cfg ctx ws (files w)"
  obtain r fs1 where wr: "writeFileSync (files w) ?p ?c = (r, fs1)"
    by (cases "writeFileSync (files w) ?p ?c")
  show ?thesis
  proof (cases r)
    case (Inl e)
    with wr writeFileSync_error [of "files w" ?p ?c] have "e \<noteq> TypeError"
      by simp
    with wr Inl assms show ?thesis
      by (simp add: createReviewRequestFile_def Let_def)
  next
    case (Inr u)
    with wr have "lookup fs1 ?p = Some (File ?c)"
      by (auto dest: writeFileSync_written)
    with wr Inr show ?thesis
      by (simp add: createReviewRequestFile_def Let_def split: prod.splits sum.splits)
  qed
qed

text \<open>
  C8. With no active editor the command reports \<^verbatim>\<open>No file is currently open.\<close> and does
  nothing else: the file system is as it was, so no request document is created. With or
  without an editor, no command line is handed to \<^verbatim>\<open>execSync\<close>: \<^verbatim>\<open>git\<close> is never
  invoked and no repository is needed. With an editor, once the document is written, the file
  \<^verbatim>\<open>code-review-request.md\<close> of the working directory holds a text that contains the
  file's path, its base name and the editor's full text; the document is written whenever the
  command completes, and also when it ends in the \<^verbatim>\<open>TypeError\<close> of the prober, which runs
  after the write.
\<close>

theorem review_active_file:
  "reviewActiveFile cfg ctx ws exec None w =
     (Inr (), w\<lparr>ui := ui w @ [ShowErrorMessage ''No file is currently open.'']\<rparr>)
   \<and> spawned (snd (reviewActiveFile cfg ctx ws exec activeTextEditor w)) = spawned w
   \<and> (fst (reviewActiveFile cfg ctx ws exec (Some ed) w) = Inr ()
        \<or> fst (reviewActiveFile cfg ctx ws exec (Some ed) w) = Inl TypeError \<longrightarrow>
        (\<exists>doc. lookup (files (snd (reviewActiveFile cfg ctx ws exec (Some ed) w)))
                 (path_join (case ws of Some p \<Rightarrow> p | None \<Rightarrow> path_dirname (fileName ed))
                    ''code-review-request.md'') = Some (File doc)
             \<and> sublist (fileName ed) doc
             \<and> sublist (path_basename (fileName ed)) doc
             \<and> sublist (getText ed) doc))"
proof -
  have 1: "reviewActiveFile cfg ctx ws exec None w =
     (Inr (), w\<lparr>ui := ui w @ [ShowErrorMessage ''No file is currently open.'']\<rparr>)"
    by (simp add: reviewActiveFile_def)
  have 2: "spawned (snd (reviewActiveFile cfg ctx ws exec activeTextEditor w)) = spawned w"
    by (cases activeTextEditor)
       (simp_all add: reviewActiveFile_def Let_def createReviewRequestFile_spawned)
  have 3: "\<exists>doc. lookup (files (snd (reviewActiveFile cfg ctx ws exec (Some ed) w)))
                 (path_join (case ws of Some p \<Rightarrow> p | None \<Rightarrow> path_dirname (fileName ed))
                    ''code-review-request.md'') = Some (File doc)
             \<and> sublist (fileName ed) doc
             \<and> sublist (path_basename (fileName ed)) doc
             \<and> sublist (getText ed) doc"
    if ok: "fst (reviewActiveFile cfg ctx ws exec (Some ed) w) = Inr ()
          \<or> fst (reviewActiveFile cfg ctx ws exec (Some ed) w) = Inl TypeError"
  proof -
    let ?cwd = "case ws of Some p \<Rightarrow> p | None \<Rightarrow> path_dirname (fileName ed)"
    from ok have "fst (createReviewRequestFile cfg ctx ws exec (activeFileRequest ed) ?cwd w) = Inr ()
        \<or> fst (createReviewRequestFile cfg ctx ws exec (activeFileRequest ed) ?cwd w) = Inl TypeError"
      by (simp add: reviewActiveFile_def Let_def)
    from createReviewRequestFile_document [OF this] show ?thesis
      by (simp add: reviewActiveFile_def Let_def activeFileRequest_embeds)
  qed
  from 1 2 3 show ?thesis by blast
qed

theorem review_active_file_witness:
  "fst (reviewActiveFile demoCfg demoCtx (Some ''/w'') hostNone (Some demoEditor) emptyWorld) = Inr ()
   \<and> (\<exists>doc. lookup (files (snd (reviewActiveFile demoCfg demoCtx (Some ''/w'') hostNone
                                   (Some demoEditor) emptyWorld)))
               ''/w/code-review-request.md'' = Some (File doc)
           \<and> sublist ''/w/src/app.py'' doc \<and> sublist ''app.py'' doc \<and> sublist ''print(1)'' doc)
   \<and> fst (reviewActiveFile demoCfg demoCtx (Some ''/w'') hostRejectsWithUndefined (Some demoEditor)
            emptyWorld) = Inl TypeError
   \<and> (\<exists>doc. lookup (files (snd (reviewActiveFile demoCfg demoCtx (Some ''/w'')
                                   hostRejectsWithUndefined (Some demoEditor) emptyWorld)))
               ''/w/code-review-request.md'' = Some (File doc)
           \<and> sublist ''/w/src/app.py'' doc \<and> sublist ''app.py'' doc \<and> sublist ''print(1)'' doc)
   \<and> lookup (files (snd (reviewActiveFile demoCfg demoCtx (Some ''/w'') hostNone None emptyWorld)))
        ''/w/code-review-request.md'' = None"
proof -
  have f: "lookup (files emptyWorld) ''/w/code-review-request.md'' \<noteq> Some Dir"
    "''/w/code-review-request.md'' \<notin> locked (files emptyWorld)"
    "lookup (files emptyWorld) (path_dirname ''/w/code-review-request.md'') = Some Dir"
    by code_simp+
  have j: "path_join ''/w'' ''code-review-request.md'' = ''/w/code-review-request.md''"
    by code_simp
  have ok: "fst (reviewActiveFile demoCfg demoCtx (Some ''/w'') hostNone (Some demoEditor) emptyWorld)
              = Inr ()"
    using writeFileSync_ok [OF f]
    by (simp add: reviewActiveFile_def createReviewRequestFile_fst j
        autoPromptLogic_returns(1) [OF tryCommands_hostNone])
  have thrown: "fst (reviewActiveFile demoCfg demoCtx (Some ''/w'') hostRejectsWithUndefined
                  (Some demoEditor) emptyWorld) = Inl TypeError"
    using writeFileSync_ok [OF f]
    by (simp add: reviewActiveFile_def createReviewRequestFile_fst j
        autoPromptLogic_throws(1) [OF tryCommands_hostRejectsWithUndefined])
  have none: "lookup (files (snd (reviewActiveFile demoCfg demoCtx (Some ''/w'') hostNone None
                emptyWorld))) ''/w/code-review-request.md'' = None"
    by code_simp
  have e: "fileName demoEditor = ''/w/src/app.py''" "getText demoEditor = ''print(1)''"
    "path_basename ''/w/src/app.py'' = ''app.py''"
    "path_join ''/w'' ''code-review-request.md'' = ''/w/code-review-request.md''"
    by code_simp+
  from review_active_file [of demoCfg demoCtx "Some ''/w''" hostNone emptyWorld None demoEditor]
    review_active_file [of demoCfg demoCtx "Some ''/w''" hostRejectsWithUndefined emptyWorld None
      demoEditor]
    ok thrown none e
  show ?thesis by simp
qed

section \<open>The file system operations\<close>

lemma lookup_commit [simp]: "lookup (commit fs ns) p = map_of ns p"
  by (simp add: lookup_def commit_def)

lemma locked_commit [simp]: "locked (commit fs ns) = locked fs"
  by (simp add: commit_def)

lemma history_commit [simp]: "history (commit fs ns) = history fs @ [ns]"
  by (simp add: commit_def)

lemma map_of_delete_nodes: "map_of (AList.delete p (nodes fs)) q = (if q = p then None else lookup fs q)"
  by (simp add: lookup_def delete_conv')

lemma map_of_update_nodes: "map_of (AList.update p n (nodes fs)) q = (if q = p then Some n else lookup fs q)"
  by (simp add: lookup_def update_conv')

lemma shrinks_refl [simp]: "shrinks fs fs"
  by (simp add: shrinks_def)

lemma shrinks_lookup: "shrinks fs fs' \<Longrightarrow> lookup fs' p = Some n \<Longrightarrow> lookup fs p = Some n"
proof -
  assume sh: "shrinks fs fs'" and l: "lookup fs' p = Some n"
  from sh have "\<forall>q. lookup fs' q = None \<or> lookup fs' q = lookup fs q"
    by (simp add: shrinks_def)
  then have "lookup fs' p = None \<or> lookup fs' p = lookup fs p" ..
  with l show ?thesis by simp
qed

lemma shrinks_locked: "shrinks fs fs' \<Longrightarrow> locked fs' = locked fs"
  by (simp add: shrinks_def)

lemma shrinks_trans: "shrinks a b \<Longrightarrow> shrinks b c \<Longrightarrow> shrinks a c"
proof -
  assume ab: "shrinks a b" and bc: "shrinks b c"
  have "lookup c p = None \<or> lookup c p = lookup a p" for p
  proof (cases "lookup c p")
    case None
    then show ?thesis by simp
  next
    case (Some n)
    from shrinks_lookup [OF ab shrinks_lookup [OF bc Some]] Some show ?thesis
      by simp
  qed
  with shrinks_locked [OF ab] shrinks_locked [OF bc] show ?thesis
    by (simp add: shrinks_def)
qed

lemma shrinks_exists: "shrinks fs fs' \<Longrightarrow> existsSync fs' p \<Longrightarrow> existsSync fs p"
proof -
  assume s: "shrinks fs fs'" and "existsSync fs' p"
  then obtain n where "lookup fs' p = Some n"
    by (auto simp: existsSync_def)
  from shrinks_lookup [OF s this] show ?thesis
    by (simp add: existsSync_def)
qed

lemma shrinks_undeletable: "shrinks fs fs' \<Longrightarrow> existsSync fs' p \<Longrightarrow> undeletable fs' p \<Longrightarrow> undeletable fs p"
proof -
  assume s: "shrinks fs fs'" and "existsSync fs' p" and u: "undeletable fs' p"
  from u consider "lookup fs' p = Some Dir" | "p \<in> locked fs'"
    by (auto simp: undeletable_def)
  then show ?thesis
  proof cases
    case 1
    from shrinks_lookup [OF s this] show ?thesis
      by (simp add: undeletable_def)
  next
    case 2
    with shrinks_locked [OF s] show ?thesis
      by (simp add: undeletable_def)
  qed
qed

lemma shrinks_gone: "shrinks fs fs' \<Longrightarrow> \<not> existsSync fs p \<Longrightarrow> \<not> existsSync fs' p"
  using shrinks_exists by blast

lemma unlinkSync_shrinks: "shrinks fs (snd (unlinkSync fs p))"
  by (auto simp: unlinkSync_def shrinks_def map_of_delete_nodes split: option.splits node.splits)

lemma unlinkSync_cases:
  "(fst (unlinkSync fs p) = Inr () \<and> \<not> existsSync (snd (unlinkSync fs p)) p)
   \<or> ((\<exists>e. fst (unlinkSync fs p) = Inl e) \<and> snd (unlinkSync fs p) = fs
       \<and> (existsSync fs p \<longrightarrow> undeletable fs p))"
  by (auto simp: unlinkSync_def existsSync_def undeletable_def map_of_delete_nodes
      split: option.splits node.splits)

lemma unlinkIfExists_shrinks: "shrinks fs (snd (unlinkIfExists fs p))"
  by (simp add: unlinkIfExists_def unlinkSync_shrinks)

lemma unlinkIfExists_cases:
  "(fst (unlinkIfExists fs p) = Inr () \<and> \<not> existsSync (snd (unlinkIfExists fs p)) p)
   \<or> ((\<exists>e. fst (unlinkIfExists fs p) = Inl e) \<and> snd (unlinkIfExists fs p) = fs
       \<and> existsSync fs p \<and> undeletable fs p)"
  using unlinkSync_cases [of fs p]
  by (auto simp: unlinkIfExists_def)

lemma unlinkIfExists_left: "existsSync (snd (unlinkIfExists fs p)) p \<Longrightarrow> undeletable fs p"
  using unlinkIfExists_cases [of fs p] by auto

lemma rmdirSync_shrinks: "shrinks fs (snd (rmdirSync fs d))"
  by (auto simp: rmdirSync_def shrinks_def map_of_delete_nodes split: option.splits node.splits)

lemma rmdirIfEmpty_shrinks: "shrinks fs (snd (rmdirIfEmpty fs d))"
  by (auto simp: rmdirIfEmpty_def rmdirSync_shrinks split: sum.splits)

lemma rmdirIfExistsEmpty_shrinks: "shrinks fs (snd (rmdirIfExistsEmpty fs d))"
  by (simp add: rmdirIfExistsEmpty_def rmdirIfEmpty_shrinks)

lemma rmdirIfEmpty_removable:
  "removableDir fs d \<Longrightarrow> \<not> existsSync (snd (rmdirIfEmpty fs d)) d"
  by (auto simp: removableDir_def rmdirIfEmpty_def readdirSync_def rmdirSync_def existsSync_def
      map_of_delete_nodes split: sum.splits)

lemma rmdirIfEmpty_not_left: "\<not> removableDir (snd (rmdirIfEmpty fs d)) d"
  by (auto simp: removableDir_def rmdirIfEmpty_def readdirSync_def rmdirSync_def
      map_of_delete_nodes split: option.splits node.splits)

lemma rmdirIfExistsEmpty_removable:
  "removableDir fs d \<Longrightarrow> \<not> existsSync (snd (rmdirIfExistsEmpty fs d)) d"
  by (simp add: rmdirIfExistsEmpty_def rmdirIfEmpty_removable)

lemma rmdirIfExistsEmpty_not_left: "\<not> removableDir (snd (rmdirIfExistsEmpty fs d)) d"
  using rmdirIfEmpty_not_left [of fs d]
  by (auto simp: rmdirIfExistsEmpty_def removableDir_def existsSync_def)

section \<open>Theorems about teardown\<close>

lemma deactivate_body_shrinks: "shrinks fs (deactivate_body d fs)"
  unfolding deactivate_body_def Let_def
  by (rule shrinks_trans [OF shrinks_trans [OF shrinks_trans [OF unlinkIfExists_shrinks
        unlinkIfExists_shrinks] rmdirIfExistsEmpty_shrinks] unlinkIfExists_shrinks])

lemma deactivate_body_files:
  assumes "f \<in> set (skillFiles d)" and "existsSync (deactivate_body d fs) f"
  shows "undeletable fs f"
proof -
  let ?f1 = "path_join d ''SKILL.md''"
  let ?f2 = "path_join d ''code-review.md''"
  let ?f3 = "path_join (path_resolve_up3 d) ''code-review-request.md''"
  let ?fs1 = "snd (unlinkIfExists fs ?f1)"
  let ?fs2 = "snd (unlinkIfExists ?fs1 ?f2)"
  let ?fs3 = "snd (rmdirIfExistsEmpty ?fs2 d)"
  let ?fs4 = "snd (unlinkIfExists ?fs3 ?f3)"
  have body: "deactivate_body d fs = ?fs4"
    by (simp add: deactivate_body_def Let_def)
  have s01: "shrinks fs ?fs1" and s12: "shrinks ?fs1 ?fs2" and s23: "shrinks ?fs2 ?fs3"
    and s34: "shrinks ?fs3 ?fs4"
    by (rule unlinkIfExists_shrinks rmdirIfExistsEmpty_shrinks)+
  have s24: "shrinks ?fs2 ?fs4"
    by (rule shrinks_trans [OF s23 s34])
  have s14: "shrinks ?fs1 ?fs4"
    by (rule shrinks_trans [OF s12 s24])
  have s03: "shrinks fs ?fs3"
    by (rule shrinks_trans [OF shrinks_trans [OF s01 s12] s23])
  from assms(1) consider "f = ?f1" | "f = ?f2" | "f = ?f3"
    by (auto simp: skillFiles_def)
  then show ?thesis
  proof cases
    case 1
    with assms(2) body have "existsSync ?fs1 ?f1"
      using shrinks_exists [OF s14] by simp
    with 1 show ?thesis
      by (simp add: unlinkIfExists_left)
  next
    case 2
    with assms(2) body have e2: "existsSync ?fs2 ?f2"
      using shrinks_exists [OF s24] by simp
    then have "undeletable ?fs1 ?f2"
      by (rule unlinkIfExists_left)
    moreover from e2 have "existsSync ?fs1 ?f2"
      using shrinks_exists [OF s12] by blast
    ultimately show ?thesis
      using 2 shrinks_undeletable [OF s01] by blast
  next
    case 3
    with assms(2) body have e4: "existsSync ?fs4 ?f3"
      by simp
    then have "undeletable ?fs3 ?f3"
      by (rule unlinkIfExists_left)
    moreover from e4 have "existsSync ?fs3 ?f3"
      using shrinks_exists [OF s34] by blast
    ultimately show ?thesis
      using 3 shrinks_undeletable [OF s03] by blast
  qed
qed

lemma deactivate_body_dir:
  assumes "removableDir (afterOwnFiles d fs) d"
  shows "\<not> existsSync (deactivate_body d fs) d"
proof -
  let ?fs2 = "afterOwnFiles d fs"
  let ?fs3 = "snd (rmdirIfExistsEmpty ?fs2 d)"
  have "\<not> existsSync ?fs3 d"
    using assms by (rule rmdirIfExistsEmpty_removable)
  moreover have "shrinks ?fs3 (deactivate_body d fs)"
    by (simp add: deactivate_body_def afterOwnFiles_def Let_def unlinkIfExists_shrinks)
  ultimately show ?thesis
    using shrinks_gone by blast
qed

lemma deactivate_loop_strings:
  "fst (deactivate_loop (map JString ds) fs) = Inr ()
   \<and> shrinks fs (snd (deactivate_loop (map JString ds) fs))
   \<and> (\<forall>d\<in>set ds. \<forall>f\<in>set (skillFiles d).
         existsSync (snd (deactivate_loop (map JString ds) fs)) f \<longrightarrow> undeletable fs f)"
proof (induction ds arbitrary: fs)
  case Nil
  show ?case by simp
next
  case (Cons d ds)
  let ?fs1 = "deactivate_body d fs"
  let ?fs' = "snd (deactivate_loop (map JString ds) ?fs1)"
  have s1: "shrinks fs ?fs1"
    by (rule deactivate_body_shrinks)
  from Cons.IH [of ?fs1] have r: "fst (deactivate_loop (map JString ds) ?fs1) = Inr ()"
    and s2: "shrinks ?fs1 ?fs'"
    and rest: "\<forall>d'\<in>set ds. \<forall>f\<in>set (skillFiles d'). existsSync ?fs' f \<longrightarrow> undeletable ?fs1 f"
    by blast+
  have "undeletable fs f" if "d' \<in> set (d # ds)" "f \<in> set (skillFiles d')" "existsSync ?fs' f"
    for d' f
  proof (cases "d' \<in> set ds")
    case True
    with rest that have "undeletable ?fs1 f" by blast
    moreover from that(3) have "existsSync ?fs1 f"
      using shrinks_exists [OF s2] by blast
    ultimately show ?thesis
      using shrinks_undeletable [OF s1] by blast
  next
    case False
    with that(1) have "d' = d" by simp
    moreover from that(3) have "existsSync ?fs1 f"
      using shrinks_exists [OF s2] by blast
    ultimately show ?thesis
      using that(2) deactivate_body_files by blast
  qed
  with r shrinks_trans [OF s1 s2] show ?case
    by simp
qed

lemma deactivate_loop_append:
  "deactivate_loop (map JString (ds1 @ ds2)) fs =
     deactivate_loop (map JString ds2) (snd (deactivate_loop (map JString ds1) fs))"
  by (induction ds1 arbitrary: fs) simp_all

lemma deactivate_loop_dir:
  assumes "ds = ds1 @ d # ds2"
      and "removableDir (afterOwnFiles d (snd (deactivate_loop (map JString ds1) fs))) d"
  shows "\<not> existsSync (snd (deactivate_loop (map JString ds) fs)) d"
proof -
  let ?fs1 = "snd (deactivate_loop (map JString ds1) fs)"
  let ?fs2 = "deactivate_body d ?fs1"
  have eq: "deactivate_loop (map JString ds) fs = deactivate_loop (map JString ds2) ?fs2"
    using assms(1) deactivate_loop_append [of ds1 "d # ds2" fs] by simp
  have gone: "\<not> existsSync ?fs2 d"
    using assms(2) by (rule deactivate_body_dir)
  have "shrinks ?fs2 (snd (deactivate_loop (map JString ds2) ?fs2))"
    using deactivate_loop_strings [of ds2 ?fs2] by (rule conjunct1 [OF conjunct2])
  from shrinks_gone [OF this gone] show ?thesis
    unfolding eq .
qed

lemma clearManifest_shrinks: "shrinks fs (snd (clearManifest P fs))"
proof (cases "fst (unlinkIfExists fs (MANIFEST_FILE P))")
  case (Inl e)
  then show ?thesis
    using unlinkIfExists_shrinks [of fs "MANIFEST_FILE P"]
    by (cases "unlinkIfExists fs (MANIFEST_FILE P)") (simp add: clearManifest_def andThen_def)
next
  case (Inr u)
  then show ?thesis
    using shrinks_trans [OF unlinkIfExists_shrinks [of fs "MANIFEST_FILE P"]
        rmdirIfExistsEmpty_shrinks [of _ "MANIFEST_DIR P"]]
    by (cases "unlinkIfExists fs (MANIFEST_FILE P)") (simp add: clearManifest_def andThen_def)
qed

lemma clearManifest_file:
  "existsSync (snd (clearManifest P fs)) (MANIFEST_FILE P) \<Longrightarrow> undeletable fs (MANIFEST_FILE P)"
  using unlinkIfExists_cases [of fs "MANIFEST_FILE P"]
    rmdirIfExistsEmpty_shrinks [of "snd (unlinkIfExists fs (MANIFEST_FILE P))" "MANIFEST_DIR P"]
  by (cases "unlinkIfExists fs (MANIFEST_FILE P)")
     (auto simp: clearManifest_def andThen_def dest: shrinks_exists)

lemma clearManifest_dir:
  "\<not> existsSync (snd (clearManifest P fs)) (MANIFEST_FILE P)
     \<Longrightarrow> \<not> removableDir (snd (clearManifest P fs)) (MANIFEST_DIR P)"
  using unlinkIfExists_cases [of fs "MANIFEST_FILE P"]
    rmdirIfExistsEmpty_not_left [of "snd (unlinkIfExists fs (MANIFEST_FILE P))" "MANIFEST_DIR P"]
  by (cases "unlinkIfExists fs (MANIFEST_FILE P)")
     (auto simp: clearManifest_def andThen_def)

text \<open>
  C7, as the claim states it, fails. A manifest file that holds \<^verbatim>\<open>null\<close> parses, so
  \<^verbatim>\<open>getManifest\<close> returns \<^verbatim>\<open>null\<close>; reading \<^verbatim>\<open>installedPaths\<close> of it throws a
  \<^verbatim>\<open>TypeError\<close> outside every \<^verbatim>\<open>try\<close> of \<^verbatim>\<open>deactivate\<close>. Teardown ends there: the
  documentation files and the manifest file, none of them locked, are all still on disk.
\<close>

theorem teardown_null_manifest_throws:
  "cleanupOnDeactivate demoCfg
   \<and> getManifest demoPlatform (installedFs ''null'' {}) = JNull
   \<and> fst (deactivate demoPlatform demoCfg (installedFs ''null'' {})) = Inl TypeError
   \<and> existsSync (snd (deactivate demoPlatform demoCfg (installedFs ''null'' {})))
        ''/w/.agents/skills/code-review/SKILL.md''
   \<and> existsSync (snd (deactivate demoPlatform demoCfg (installedFs ''null'' {})))
        (MANIFEST_FILE demoPlatform)
   \<and> \<not> undeletable (installedFs ''null'' {}) (MANIFEST_FILE demoPlatform)"
  by code_simp

text \<open>
  C7, amended. Let the manifest file be absent, unreadable or unparsable, or parse to an
  object whose \<^verbatim>\<open>installedPaths\<close> is an array of strings. Then teardown with cleanup enabled
  returns normally and only deletes. Afterwards each of the two documentation files of every
  listed directory, and the request document at each inferred workspace root, is gone unless
  its own deletion threw (it is a directory, or locked); a listed directory that is empty
  once its two files have been dealt with is removed; the manifest file is gone unless its
  own deletion threw, whatever happened to the deletions before it; and once the manifest
  file is gone its directory is not left behind empty.
\<close>

theorem teardown_deletes_what_it_can:
  assumes "cleanupOnDeactivate cfg"
      and "getProp (getManifest P fs) ''installedPaths'' = Inr (Some (JArray (map JString ds)))"
  shows "fst (deactivate P cfg fs) = Inr ()
   \<and> shrinks fs (snd (deactivate P cfg fs))
   \<and> (\<forall>d\<in>set ds. \<forall>f\<in>set (skillFiles d).
         existsSync (snd (deactivate P cfg fs)) f \<longrightarrow> undeletable fs f)
   \<and> (\<forall>ds1 d ds2. ds = ds1 @ d # ds2
         \<and> removableDir (afterOwnFiles d (snd (deactivate_loop (map JString ds1) fs))) d
         \<longrightarrow> \<not> existsSync (snd (deactivate P cfg fs)) d)
   \<and> (existsSync (snd (deactivate P cfg fs)) (MANIFEST_FILE P) \<longrightarrow> undeletable fs (MANIFEST_FILE P))
   \<and> (\<not> existsSync (snd (deactivate P cfg fs)) (MANIFEST_FILE P)
         \<longrightarrow> \<not> removableDir (snd (deactivate P cfg fs)) (MANIFEST_DIR P))"
proof -
  let ?fs1 = "snd (deactivate_loop (map JString ds) fs)"
  let ?fs' = "snd (clearManifest P ?fs1)"
  have loop: "fst (deactivate_loop (map JString ds) fs) = Inr ()"
    and s1: "shrinks fs ?fs1"
    and files: "\<forall>d\<in>set ds. \<forall>f\<in>set (skillFiles d). existsSync ?fs1 f \<longrightarrow> undeletable fs f"
    using deactivate_loop_strings [of ds fs] by blast+
  have d: "deactivate P cfg fs = (Inr (), ?fs')"
    using assms loop
    by (cases "deactivate_loop (map JString ds) fs")
       (simp add: deactivate_def js_iterate_def andThen_def)
  have s2: "shrinks ?fs1 ?fs'"
    by (rule clearManifest_shrinks)
  have 1: "undeletable fs f" if "d \<in> set ds" "f \<in> set (skillFiles d)" "existsSync ?fs' f" for d f
    using that files shrinks_exists [OF s2] by blast
  have 2: "\<not> existsSync ?fs' d"
    if "ds = ds1 @ d # ds2"
      "removableDir (afterOwnFiles d (snd (deactivate_loop (map JString ds1) fs))) d"
    for ds1 d ds2
    using deactivate_loop_dir [OF that] shrinks_gone [OF s2] by blast
  have 3: "undeletable fs (MANIFEST_FILE P)" if e: "existsSync ?fs' (MANIFEST_FILE P)"
  proof -
    from e have "undeletable ?fs1 (MANIFEST_FILE P)"
      by (rule clearManifest_file)
    moreover from e have "existsSync ?fs1 (MANIFEST_FILE P)"
      using shrinks_exists [OF s2] by blast
    ultimately show ?thesis
      using shrinks_undeletable [OF s1] by blast
  qed
  have 4: "\<not> removableDir ?fs' (MANIFEST_DIR P)" if "\<not> existsSync ?fs' (MANIFEST_FILE P)"
    using that by (rule clearManifest_dir)
  from d shrinks_trans [OF s1 s2] 1 2 3 4 show ?thesis
    by (simp only: fst_conv snd_conv) blast
qed

theorem teardown_deletes_what_it_can_witness:
  "cleanupOnDeactivate demoCfg
   \<and> getProp (getManifest demoPlatform
                 (installedFs demoManifestText {''/w/.agents/skills/code-review/SKILL.md''}))
        ''installedPaths'' = Inr (Some (JArray (map JString [''/w/.agents/skills/code-review''])))
   \<and> fst (deactivate demoPlatform demoCfg
            (installedFs demoManifestText {''/w/.agents/skills/code-review/SKILL.md''})) = Inr ()
   \<and> existsSync (snd (deactivate demoPlatform demoCfg
            (installedFs demoManifestText {''/w/.agents/skills/code-review/SKILL.md''})))
        ''/w/.agents/skills/code-review/SKILL.md''
   \<and> \<not> existsSync (snd (deactivate demoPlatform demoCfg
            (installedFs demoManifestText {''/w/.agents/skills/code-review/SKILL.md''})))
        ''/w/.agents/skills/code-review/code-review.md''
   \<and> \<not> existsSync (snd (deactivate demoPlatform demoCfg
            (installedFs demoManifestText {''/w/.agents/skills/code-review/SKILL.md''})))
        (MANIFEST_FILE demoPlatform)
   \<and> \<not> existsSync (snd (deactivate demoPlatform demoCfg
            (installedFs demoManifestText {''/w/.agents/skills/code-review/SKILL.md''})))
        (MANIFEST_DIR demoPlatform)"
proof -
  let ?fs = "installedFs demoManifestText {''/w/.agents/skills/code-review/SKILL.md''}"
  let ?fs' = "snd (deactivate demoPlatform demoCfg ?fs)"
  have c: "cleanupOnDeactivate demoCfg"
    by code_simp
  have m: "getProp (getManifest demoPlatform ?fs) ''installedPaths''
             = Inr (Some (JArray (map JString [''/w/.agents/skills/code-review''])))"
    by code_simp
  note t = teardown_deletes_what_it_can [OF c m]
  have u: "\<not> undeletable ?fs ''/w/.agents/skills/code-review/code-review.md''"
    "\<not> undeletable ?fs (MANIFEST_FILE demoPlatform)"
    by code_simp+
  have k: "''/w/.agents/skills/code-review/code-review.md''
             \<in> set (skillFiles ''/w/.agents/skills/code-review'')"
    by code_simp
  have e: "existsSync ?fs' ''/w/.agents/skills/code-review/SKILL.md''"
    "\<not> existsSync ?fs' (MANIFEST_DIR demoPlatform)"
    by code_simp+
  from t have "fst (deactivate demoPlatform demoCfg ?fs) = Inr ()"
    by blast
  moreover from t u(1) k have "\<not> existsSync ?fs' ''/w/.agents/skills/code-review/code-review.md''"
    by auto
  moreover from t u(2) have "\<not> existsSync ?fs' (MANIFEST_FILE demoPlatform)"
    by blast
  ultimately show ?thesis
    using c m e by blast
qed

section \<open>Theorems about the uninstall hook\<close>

lemma last_path_join: "n \<noteq> [] \<Longrightarrow> last (path_join d n) = last n"
  by (simp add: path_join_def)

lemma manifest_file_not_skill_file: "MANIFEST_FILE P \<notin> set (skillFiles d)"
proof
  assume "MANIFEST_FILE P \<in> set (skillFiles d)"
  then have "last (MANIFEST_FILE P) = CHR ''d''"
    by (auto simp: skillFiles_def last_path_join)
  moreover have "last (MANIFEST_FILE P) = CHR ''n''"
    by (simp add: MANIFEST_FILE_def last_path_join)
  ultimately show False by simp
qed

lemma unlinkSync_other: "q \<noteq> p \<Longrightarrow> lookup (snd (unlinkSync fs p)) q = lookup fs q"
  by (auto simp: unlinkSync_def map_of_delete_nodes split: option.splits node.splits)

lemma unlinkIfExists_other: "q \<noteq> p \<Longrightarrow> lookup (snd (unlinkIfExists fs p)) q = lookup fs q"
  by (simp add: unlinkIfExists_def unlinkSync_other)

lemma rmdirIfEmpty_file:
  "lookup fs q = Some (File c) \<Longrightarrow> lookup (snd (rmdirIfEmpty fs d)) q = Some (File c)"
  by (auto simp: rmdirIfEmpty_def readdirSync_def rmdirSync_def map_of_delete_nodes
      split: option.splits node.splits)

lemma uninstall_body_shrinks: "shrinks fs (snd (uninstall_body d fs))"
proof -
  let ?f1 = "path_join d ''SKILL.md''"
  let ?f2 = "path_join d ''code-review.md''"
  let ?f3 = "path_join (path_resolve_up3 d) ''code-review-request.md''"
  let ?fs1 = "snd (unlinkIfExists fs ?f1)"
  let ?fs2 = "snd (unlinkIfExists ?fs1 ?f2)"
  let ?fs3 = "snd (rmdirIfEmpty ?fs2 d)"
  let ?fs4 = "snd (unlinkIfExists ?fs3 ?f3)"
  have s1: "shrinks fs ?fs1" and s12: "shrinks ?fs1 ?fs2" and s23: "shrinks ?fs2 ?fs3"
    and s34: "shrinks ?fs3 ?fs4"
    by (rule unlinkIfExists_shrinks rmdirIfEmpty_shrinks)+
  have s2: "shrinks fs ?fs2"
    by (rule shrinks_trans [OF s1 s12])
  have s4: "shrinks fs ?fs4"
    by (rule shrinks_trans [OF shrinks_trans [OF s2 s23] s34])
  show ?thesis
  proof (cases "fst (unlinkIfExists fs ?f1)")
    case (Inl e)
    with s1 show ?thesis
      by (cases "unlinkIfExists fs ?f1") (simp add: uninstall_body_def Let_def andThen_def)
  next
    case a: (Inr u)
    show ?thesis
    proof (cases "fst (unlinkIfExists ?fs1 ?f2)")
      case (Inl e)
      with a s2 show ?thesis
        by (cases "unlinkIfExists fs ?f1"; cases "unlinkIfExists ?fs1 ?f2")
           (simp add: uninstall_body_def Let_def andThen_def)
    next
      case (Inr v)
      with a s4 show ?thesis
        by (cases "unlinkIfExists fs ?f1"; cases "unlinkIfExists ?fs1 ?f2")
           (simp add: uninstall_body_def Let_def andThen_def)
    qed
  qed
qed

lemma uninstall_body_keeps_file:
  assumes "lookup fs q = Some (File c)" and "q \<notin> set (skillFiles d)"
  shows "lookup (snd (uninstall_body d fs)) q = Some (File c)"
proof -
  let ?f1 = "path_join d ''SKILL.md''"
  let ?f2 = "path_join d ''code-review.md''"
  let ?f3 = "path_join (path_resolve_up3 d) ''code-review-request.md''"
  let ?fs1 = "snd (unlinkIfExists fs ?f1)"
  let ?fs2 = "snd (unlinkIfExists ?fs1 ?f2)"
  let ?fs3 = "snd (rmdirIfEmpty ?fs2 d)"
  let ?fs4 = "snd (unlinkIfExists ?fs3 ?f3)"
  from assms(2) have ne: "q \<noteq> ?f1" "q \<noteq> ?f2" "q \<noteq> ?f3"
    by (auto simp: skillFiles_def)
  have k1: "lookup ?fs1 q = Some (File c)"
    using assms(1) ne(1) by (simp add: unlinkIfExists_other)
  have k2: "lookup ?fs2 q = Some (File c)"
    using k1 ne(2) by (simp add: unlinkIfExists_other)
  have k3: "lookup ?fs3 q = Some (File c)"
    using k2 by (rule rmdirIfEmpty_file)
  have k4: "lookup ?fs4 q = Some (File c)"
    using k3 ne(3) by (simp add: unlinkIfExists_other)
  show ?thesis
    using k1 k2 k4
    by (cases "unlinkIfExists fs ?f1"; cases "unlinkIfExists ?fs1 ?f2")
       (auto simp: uninstall_body_def Let_def andThen_def split: sum.splits)
qed

text \<open>
  Conversely, the loop throws only in the body of one directory, at a file that is a
  directory or locked, and ends in the state that body left.
\<close>

lemma uninstall_body_throw:
  assumes "fst (uninstall_body d fs) = Inl e"
  shows "\<exists>f\<in>set (skillFiles d). undeletable fs f"
proof -
  let ?f1 = "path_join d ''SKILL.md''"
  let ?f2 = "path_join d ''code-review.md''"
  let ?f3 = "path_join (path_resolve_up3 d) ''code-review-request.md''"
  let ?fs1 = "snd (unlinkIfExists fs ?f1)"
  let ?fs2 = "snd (unlinkIfExists ?fs1 ?f2)"
  let ?fs3 = "snd (rmdirIfEmpty ?fs2 d)"
  have s1: "shrinks fs ?fs1" and s12: "shrinks ?fs1 ?fs2" and s23: "shrinks ?fs2 ?fs3"
    by (rule unlinkIfExists_shrinks rmdirIfEmpty_shrinks)+
  have s3: "shrinks fs ?fs3"
    by (rule shrinks_trans [OF shrinks_trans [OF s1 s12] s23])
  have mem: "?f1 \<in> set (skillFiles d)" "?f2 \<in> set (skillFiles d)" "?f3 \<in> set (skillFiles d)"
    by (simp_all add: skillFiles_def)
  show ?thesis
  proof (cases "fst (unlinkIfExists fs ?f1)")
    case (Inl x)
    then have "undeletable fs ?f1"
      using unlinkIfExists_cases [of fs ?f1] by auto
    with mem(1) show ?thesis by blast
  next
    case a: (Inr u)
    show ?thesis
    proof (cases "fst (unlinkIfExists ?fs1 ?f2)")
      case (Inl x)
      then have "existsSync ?fs1 ?f2 \<and> undeletable ?fs1 ?f2"
        using unlinkIfExists_cases [of ?fs1 ?f2] by auto
      then have "undeletable fs ?f2"
        using shrinks_undeletable [OF s1] by blast
      with mem(2) show ?thesis by blast
    next
      case b: (Inr v)
      from assms a b have "fst (unlinkIfExists ?fs3 ?f3) = Inl e"
        by (cases "unlinkIfExists fs ?f1"; cases "unlinkIfExists ?fs1 ?f2")
           (simp add: uninstall_body_def Let_def andThen_def)
      then have "existsSync ?fs3 ?f3 \<and> undeletable ?fs3 ?f3"
        using unlinkIfExists_cases [of ?fs3 ?f3] by auto
      then have "undeletable fs ?f3"
        using shrinks_undeletable [OF s3] by blast
      with mem(3) show ?thesis by blast
    qed
  qed
qed

lemma uninstall_loop_shrinks: "shrinks fs (snd (uninstall_loop (map JString ds) fs))"
proof (induction ds arbitrary: fs)
  case Nil
  show ?case by simp
next
  case (Cons d ds)
  obtain r fs1 where b: "uninstall_body d fs = (r, fs1)"
    by (cases "uninstall_body d fs")
  then have s1: "shrinks fs fs1"
    using uninstall_body_shrinks [of fs d] by simp
  show ?case
  proof (cases r)
    case (Inl e)
    with b s1 show ?thesis by (simp add: andThen_def)
  next
    case (Inr u)
    with b shrinks_trans [OF s1 Cons.IH [of fs1]] show ?thesis
      by (simp add: andThen_def)
  qed
qed

lemma uninstall_loop_keeps_file:
  "lookup fs (MANIFEST_FILE P) = Some (File c)
     \<Longrightarrow> lookup (snd (uninstall_loop (map JString ds) fs)) (MANIFEST_FILE P) = Some (File c)"
proof (induction ds arbitrary: fs)
  case Nil
  then show ?case by simp
next
  case (Cons d ds)
  obtain r fs1 where b: "uninstall_body d fs = (r, fs1)"
    by (cases "uninstall_body d fs")
  with Cons.prems have k: "lookup fs1 (MANIFEST_FILE P) = Some (File c)"
    using uninstall_body_keeps_file [OF _ manifest_file_not_skill_file, of fs P c d] by simp
  show ?case
  proof (cases r)
    case (Inl e)
    with b k show ?thesis by (simp add: andThen_def)
  next
    case (Inr u)
    with b Cons.IH [OF k] show ?thesis
      by (simp add: andThen_def)
  qed
qed

lemma uninstall_loop_throw:
  "fst (uninstall_loop (map JString ds) fs) = Inl e \<Longrightarrow>
     \<exists>ds1 d ds2 fs1. ds = ds1 @ d # ds2
        \<and> uninstall_loop (map JString ds1) fs = (Inr (), fs1)
        \<and> fst (uninstall_body d fs1) = Inl e
        \<and> shrinks fs fs1
        \<and> snd (uninstall_loop (map JString ds) fs) = snd (uninstall_body d fs1)"
proof (induction ds arbitrary: fs)
  case Nil
  then show ?case by simp
next
  case (Cons d ds)
  obtain r fs1 where b: "uninstall_body d fs = (r, fs1)"
    by (cases "uninstall_body d fs")
  show ?case
  proof (cases r)
    case (Inl x)
    with b Cons.prems have "x = e"
      by (simp add: andThen_def)
    with b Inl have "d # ds = [] @ d # ds \<and> uninstall_loop (map JString []) fs = (Inr (), fs)
        \<and> fst (uninstall_body d fs) = Inl e \<and> shrinks fs fs
        \<and> snd (uninstall_loop (map JString (d # ds)) fs) = snd (uninstall_body d fs)"
      by (simp add: andThen_def)
    then show ?thesis by blast
  next
    case (Inr u)
    with b Cons.prems have "fst (uninstall_loop (map JString ds) fs1) = Inl e"
      by (simp add: andThen_def)
    from Cons.IH [OF this] obtain ds1 d' ds2 fs2 where
      sp: "ds = ds1 @ d' # ds2"
      and pre: "uninstall_loop (map JString ds1) fs1 = (Inr (), fs2)"
      and thr: "fst (uninstall_body d' fs2) = Inl e"
      and sh: "shrinks fs1 fs2"
      and fin: "snd (uninstall_loop (map JString ds) fs1) = snd (uninstall_body d' fs2)"
      by blast
    have s1: "shrinks fs fs1"
      using b uninstall_body_shrinks [of fs d] by simp
    from sp pre thr fin b Inr shrinks_trans [OF s1 sh]
    have "d # ds = (d # ds1) @ d' # ds2
        \<and> uninstall_loop (map JString (d # ds1)) fs = (Inr (), fs2)
        \<and> fst (uninstall_body d' fs2) = Inl e \<and> shrinks fs fs2
        \<and> snd (uninstall_loop (map JString (d # ds)) fs) = snd (uninstall_body d' fs2)"
      by (simp add: andThen_def)
    then show ?thesis by blast
  qed
qed

lemma deactivate_strings:
  assumes "cleanupOnDeactivate cfg"
      and "getProp (getManifest P fs) ''installedPaths'' = Inr (Some (JArray (map JString ds)))"
  shows "deactivate P cfg fs =
           (Inr (), snd (clearManifest P (snd (deactivate_loop (map JString ds) fs))))"
  using assms deactivate_loop_strings [of ds fs]
  by (cases "deactivate_loop (map JString ds) fs")
     (simp add: deactivate_def js_iterate_def andThen_def)

lemma getManifest_parsed:
  "readFileSync fs (MANIFEST_FILE P) = Inr raw \<Longrightarrow> JSON_parse P raw = Some v
     \<Longrightarrow> getManifest P fs = v"
  by (auto simp: getManifest_def getManifest_try_def existsSync_def readFileSync_def
      split: option.splits node.splits)

lemma unlinkIfExists_blocked:
  "blocked fs p \<Longrightarrow> \<exists>e. unlinkIfExists fs p = (Inl e, fs)"
  by (auto simp: blocked_def unlinkIfExists_def unlinkSync_def existsSync_def undeletable_def
      split: option.splits node.splits)

lemma rmdirIfEmpty_other: "q \<noteq> d \<Longrightarrow> lookup (snd (rmdirIfEmpty fs d)) q = lookup fs q"
  by (auto simp: rmdirIfEmpty_def readdirSync_def rmdirSync_def map_of_delete_nodes
      split: option.splits node.splits)

lemma blocked_kept:
  "shrinks fs fs' \<Longrightarrow> lookup fs' p = lookup fs p \<Longrightarrow> blocked fs p \<Longrightarrow> blocked fs' p"
  by (simp add: blocked_def existsSync_def undeletable_def shrinks_def)

lemma rev_path_join:
  "k \<le> length n \<Longrightarrow> take k (rev (path_join d n)) = take k (rev n)"
  by (simp add: path_join_def)

lemma skillFiles_distinct: "distinct (skillFiles d)"
proof -
  let ?f1 = "path_join d ''SKILL.md''"
  let ?f2 = "path_join d ''code-review.md''"
  let ?f3 = "path_join (path_resolve_up3 d) ''code-review-request.md''"
  have t: "take 4 (rev ?f1) = ''dm.L''" "take 4 (rev ?f2) = ''dm.w''" "take 4 (rev ?f3) = ''dm.t''"
    by (simp_all add: rev_path_join)
  have "?f1 \<noteq> ?f2"
  proof
    assume "?f1 = ?f2"
    then have "take 4 (rev ?f1) = take 4 (rev ?f2)" by simp
    with t show False by simp
  qed
  moreover have "?f1 \<noteq> ?f3"
  proof
    assume "?f1 = ?f3"
    then have "take 4 (rev ?f1) = take 4 (rev ?f3)" by simp
    with t show False by simp
  qed
  moreover have "?f2 \<noteq> ?f3"
  proof
    assume "?f2 = ?f3"
    then have "take 4 (rev ?f2) = take 4 (rev ?f3)" by simp
    with t show False by simp
  qed
  ultimately show ?thesis
    by (simp add: skillFiles_def)
qed

lemma andThen_throws: "fst r = Inl e \<Longrightarrow> fst (andThen r k) = Inl e"
  by (cases r) (simp add: andThen_def)

lemma andThen_goes_on: "fst r = Inr v \<Longrightarrow> andThen r k = k v (snd r)"
  by (cases r) (simp add: andThen_def)

text \<open>
  The body of the uninstall loop throws as soon as one of its three files exists and cannot
  be deleted.
\<close>

lemma uninstall_body_blocked:
  assumes mem: "f \<in> set (skillFiles d)" and bl: "blocked fs f" and nd: "f \<noteq> d"
  shows "\<exists>e. fst (uninstall_body d fs) = Inl e"
proof -
  let ?f1 = "path_join d ''SKILL.md''"
  let ?f2 = "path_join d ''code-review.md''"
  let ?f3 = "path_join (path_resolve_up3 d) ''code-review-request.md''"
  let ?fs1 = "snd (unlinkIfExists fs ?f1)"
  let ?fs2 = "snd (unlinkIfExists ?fs1 ?f2)"
  let ?fs3 = "snd (rmdirIfEmpty ?fs2 d)"
  have body: "uninstall_body d fs =
      andThen (unlinkIfExists fs ?f1) (\<lambda>_ fs1. andThen (unlinkIfExists fs1 ?f2)
        (\<lambda>_ fs2. unlinkIfExists (snd (rmdirIfEmpty fs2 d)) ?f3))"
    by (simp add: uninstall_body_def Let_def)
  have dist: "?f1 \<noteq> ?f2" "?f1 \<noteq> ?f3" "?f2 \<noteq> ?f3"
    using skillFiles_distinct [of d] by (simp_all add: skillFiles_def)
  have s1: "shrinks fs ?fs1" and s12: "shrinks ?fs1 ?fs2" and s23: "shrinks ?fs2 ?fs3"
    by (rule unlinkIfExists_shrinks rmdirIfEmpty_shrinks)+
  show ?thesis
  proof (cases "fst (unlinkIfExists fs ?f1)")
    case (Inl e)
    then have "fst (uninstall_body d fs) = Inl e"
      unfolding body by (rule andThen_throws)
    then show ?thesis ..
  next
    case a: (Inr u)
    have f1: "f \<noteq> ?f1"
    proof
      assume "f = ?f1"
      with bl unlinkIfExists_blocked [of fs ?f1] a show False by auto
    qed
    then have b1: "blocked ?fs1 f"
      using blocked_kept [OF s1 _ bl] by (simp add: unlinkIfExists_other)
    have step1: "uninstall_body d fs =
        andThen (unlinkIfExists ?fs1 ?f2) (\<lambda>_ fs2. unlinkIfExists (snd (rmdirIfEmpty fs2 d)) ?f3)"
      unfolding body using a by (rule andThen_goes_on)
    show ?thesis
    proof (cases "fst (unlinkIfExists ?fs1 ?f2)")
      case (Inl e)
      then have "fst (uninstall_body d fs) = Inl e"
        unfolding step1 by (rule andThen_throws)
      then show ?thesis ..
    next
      case b: (Inr v)
      have f2: "f \<noteq> ?f2"
      proof
        assume "f = ?f2"
        with b1 unlinkIfExists_blocked [of ?fs1 ?f2] b show False by auto
      qed
      with f1 mem have f3: "f = ?f3"
        by (simp add: skillFiles_def)
      have b2: "blocked ?fs2 f"
        using blocked_kept [OF s12 _ b1] f2 by (simp add: unlinkIfExists_other)
      have b3: "blocked ?fs3 f"
        using blocked_kept [OF s23 _ b2] nd by (simp add: rmdirIfEmpty_other)
      have step2: "uninstall_body d fs = unlinkIfExists ?fs3 ?f3"
        unfolding step1 using b by (rule andThen_goes_on)
      from b3 f3 unlinkIfExists_blocked [of ?fs3 ?f3] show ?thesis
        unfolding step2 by auto
    qed
  qed
qed

text \<open>The body touches nothing but its three files and its directory.\<close>

lemma uninstall_body_other:
  assumes "q \<notin> set (skillFiles d)" and "q \<noteq> d"
  shows "lookup (snd (uninstall_body d fs)) q = lookup fs q"
proof -
  let ?f1 = "path_join d ''SKILL.md''"
  let ?f2 = "path_join d ''code-review.md''"
  let ?f3 = "path_join (path_resolve_up3 d) ''code-review-request.md''"
  let ?fs1 = "snd (unlinkIfExists fs ?f1)"
  let ?fs2 = "snd (unlinkIfExists ?fs1 ?f2)"
  let ?fs3 = "snd (rmdirIfEmpty ?fs2 d)"
  let ?fs4 = "snd (unlinkIfExists ?fs3 ?f3)"
  from assms(1) have ne: "q \<noteq> ?f1" "q \<noteq> ?f2" "q \<noteq> ?f3"
    by (auto simp: skillFiles_def)
  have k1: "lookup ?fs1 q = lookup fs q"
    using ne(1) by (simp add: unlinkIfExists_other)
  have k2: "lookup ?fs2 q = lookup fs q"
    using k1 ne(2) by (simp add: unlinkIfExists_other)
  have k3: "lookup ?fs3 q = lookup fs q"
    using k2 assms(2) by (simp add: rmdirIfEmpty_other)
  have k4: "lookup ?fs4 q = lookup fs q"
    using k3 ne(3) by (simp add: unlinkIfExists_other)
  show ?thesis
    using k1 k2 k4
    by (cases "unlinkIfExists fs ?f1"; cases "unlinkIfExists ?fs1 ?f2")
       (auto simp: uninstall_body_def Let_def andThen_def split: sum.splits)
qed

lemma uninstall_loop_append:
  "uninstall_loop (xs @ ys) fs =
     andThen (uninstall_loop xs fs) (\<lambda>_ fs1. uninstall_loop ys fs1)"
proof (induction xs arbitrary: fs)
  case Nil
  show ?case by (simp add: andThen_def)
next
  case (Cons x xs)
  show ?case
  proof (cases x)
    case (JString skillDir)
    obtain r fs1 where b: "uninstall_body skillDir fs = (r, fs1)"
      by (cases "uninstall_body skillDir fs")
    show ?thesis
    proof (cases r)
      case (Inl e)
      with b JString show ?thesis by (simp add: andThen_def)
    next
      case (Inr u)
      with b JString Cons.IH [of fs1] show ?thesis by (simp add: andThen_def)
    qed
  qed (simp_all add: andThen_def)
qed

lemma uninstall_loop_stops:
  assumes "uninstall_loop (map JString ds1) fs = (Inr (), fs1)"
      and "fst (uninstall_body d fs1) = Inl e"
  shows "uninstall_loop (map JString (ds1 @ d # ds2)) fs = (Inl e, snd (uninstall_body d fs1))"
  using assms
  by (cases "uninstall_body d fs1") (simp add: uninstall_loop_append andThen_def)

text \<open>
  C10. Let the manifest file parse to an object whose \<^verbatim>\<open>installedPaths\<close> is an array of
  strings, let the loop of the uninstall hook have completed the directories before \<open>d\<close>, and
  let one of the three files of \<open>d\<close> exist and be a directory or locked, so that deleting it
  throws. Then the body of \<open>d\<close> throws, whichever of the three files it is, and the throw
  leaves the \<^verbatim>\<open>try\<close> block of the hook: the hook ends in the state that body left, so
  nothing outside the files of \<open>d\<close> has changed since the loop reached \<open>d\<close>, the directories
  after \<open>d\<close> are never visited, and the manifest file is still there with its content.
  Teardown on the same disk returns normally and the manifest file is gone.
\<close>

theorem uninstall_stops_at_first_throw:
  assumes "readFileSync fs (MANIFEST_FILE P) = Inr raw"
      and "JSON_parse P raw = Some manifest"
      and "getProp manifest ''installedPaths'' = Inr (Some (JArray (map JString (ds1 @ d # ds2))))"
      and "uninstall_loop (map JString ds1) fs = (Inr (), fs1)"
      and "f \<in> set (skillFiles d)" and "blocked fs1 f" and "f \<noteq> d"
      and "cleanupOnDeactivate cfg"
  shows "(\<exists>e. fst (uninstall_body d fs1) = Inl e \<and> fst (removeSkillFiles_try P fs) = Inl e)
       \<and> removeSkillFiles P fs = snd (uninstall_body d fs1)
       \<and> (\<forall>q. q \<notin> set (skillFiles d) \<longrightarrow> q \<noteq> d \<longrightarrow>
              lookup (removeSkillFiles P fs) q = lookup fs1 q)
       \<and> lookup (removeSkillFiles P fs) (MANIFEST_FILE P) = Some (File raw)
       \<and> fst (deactivate P cfg fs) = Inr ()
       \<and> \<not> existsSync (snd (deactivate P cfg fs)) (MANIFEST_FILE P)"
proof -
  let ?ds = "ds1 @ d # ds2"
  from assms(1) have isfile: "lookup fs (MANIFEST_FILE P) = Some (File raw)"
    and unlocked: "MANIFEST_FILE P \<notin> locked fs"
    by (auto simp: readFileSync_def split: option.splits node.splits if_splits)
  from isfile have ex: "existsSync fs (MANIFEST_FILE P)"
    by (simp add: existsSync_def)
  from uninstall_body_blocked [OF assms(5-7)] obtain e where
    thr: "fst (uninstall_body d fs1) = Inl e"
    by blast
  have loop: "uninstall_loop (map JString ?ds) fs = (Inl e, snd (uninstall_body d fs1))"
    using assms(4) thr by (rule uninstall_loop_stops)
  have tried: "removeSkillFiles_try P fs = (Inl e, snd (uninstall_body d fs1))"
    using assms(1-3) loop
    by (simp add: removeSkillFiles_try_def js_iterate_def andThen_def)
  have hook: "removeSkillFiles P fs = snd (uninstall_body d fs1)"
    using ex tried by (simp add: removeSkillFiles_def)
  have 1: "\<exists>e. fst (uninstall_body d fs1) = Inl e \<and> fst (removeSkillFiles_try P fs) = Inl e"
    using thr tried by simp
  have 3: "\<forall>q. q \<notin> set (skillFiles d) \<longrightarrow> q \<noteq> d \<longrightarrow>
              lookup (removeSkillFiles P fs) q = lookup fs1 q"
    unfolding hook by (simp add: uninstall_body_other)
  have "lookup (snd (uninstall_loop (map JString ?ds) fs)) (MANIFEST_FILE P) = Some (File raw)"
    using isfile by (rule uninstall_loop_keeps_file)
  with loop hook have 4: "lookup (removeSkillFiles P fs) (MANIFEST_FILE P) = Some (File raw)"
    by simp
  have m: "getManifest P fs = manifest"
    using assms(1,2) by (rule getManifest_parsed)
  have dd: "deactivate P cfg fs =
             (Inr (), snd (clearManifest P (snd (deactivate_loop (map JString ?ds) fs))))"
    using assms(8) assms(3) unfolding m [symmetric] by (rule deactivate_strings)
  have 6: "\<not> existsSync (snd (deactivate P cfg fs)) (MANIFEST_FILE P)"
  proof
    let ?fs1 = "snd (deactivate_loop (map JString ?ds) fs)"
    assume "existsSync (snd (deactivate P cfg fs)) (MANIFEST_FILE P)"
    with dd have e: "existsSync (snd (clearManifest P ?fs1)) (MANIFEST_FILE P)"
      by simp
    then have u: "undeletable ?fs1 (MANIFEST_FILE P)"
      by (rule clearManifest_file)
    have s: "shrinks fs ?fs1"
      using deactivate_loop_strings [of ?ds fs] by blast
    from e have "existsSync ?fs1 (MANIFEST_FILE P)"
      using shrinks_exists [OF clearManifest_shrinks] by blast
    with u have "undeletable fs (MANIFEST_FILE P)"
      using shrinks_undeletable [OF s] by blast
    with isfile unlocked show False
      by (simp add: undeletable_def)
  qed
  from 1 hook 3 4 dd 6 show ?thesis
    by simp
qed

theorem uninstall_stops_at_first_throw_witness:
  "blocked (installedFs demoManifest2Text {''/w/code-review-request.md''})
     ''/w/code-review-request.md''
   \<and> fst (removeSkillFiles_try demoPlatform
          (installedFs demoManifest2Text {''/w/code-review-request.md''})) = Inl EACCES
   \<and> lookup (removeSkillFiles demoPlatform
          (installedFs demoManifest2Text {''/w/code-review-request.md''}))
        (MANIFEST_FILE demoPlatform) = Some (File demoManifest2Text)
   \<and> lookup (removeSkillFiles demoPlatform
          (installedFs demoManifest2Text {''/w/code-review-request.md''}))
        ''/v/.agents/skills/code-review/SKILL.md'' = Some (File ''skill 0.9.0'')
   \<and> \<not> existsSync (snd (deactivate demoPlatform demoCfg
          (installedFs demoManifest2Text {''/w/code-review-request.md''})))
        (MANIFEST_FILE demoPlatform)
   \<and> blocked (snd (uninstall_loop [JString ''/w/.agents/skills/code-review'']
          (installedFs demoManifest2Text {''/v/.agents/skills/code-review/code-review.md''})))
        ''/v/.agents/skills/code-review/code-review.md''
   \<and> fst (removeSkillFiles_try demoPlatform
          (installedFs demoManifest2Text {''/v/.agents/skills/code-review/code-review.md''}))
        = Inl EACCES
   \<and> lookup (removeSkillFiles demoPlatform
          (installedFs demoManifest2Text {''/v/.agents/skills/code-review/code-review.md''}))
        (MANIFEST_FILE demoPlatform) = Some (File demoManifest2Text)
   \<and> \<not> existsSync (snd (deactivate demoPlatform demoCfg
          (installedFs demoManifest2Text {''/v/.agents/skills/code-review/code-review.md''})))
        (MANIFEST_FILE demoPlatform)"
proof -
  let ?w = "''/w/.agents/skills/code-review''"
  let ?v = "''/v/.agents/skills/code-review''"
  let ?A = "installedFs demoManifest2Text {''/w/code-review-request.md''}"
  let ?B = "installedFs demoManifest2Text {''/v/.agents/skills/code-review/code-review.md''}"
  let ?B1 = "snd (uninstall_loop (map JString [?w]) ?B)"
  have b: "JSON_parse demoPlatform demoManifest2Text = Some demoManifest2"
    by code_simp
  have e: "cleanupOnDeactivate demoCfg"
    by code_simp
  have aA: "readFileSync ?A (MANIFEST_FILE demoPlatform) = Inr demoManifest2Text"
    by code_simp
  have cA: "getProp demoManifest2 ''installedPaths'' =
              Inr (Some (JArray (map JString ([] @ ?w # [?v]))))"
    by code_simp
  have lA: "uninstall_loop (map JString []) ?A = (Inr (), ?A)"
    by simp
  have mA: "''/w/code-review-request.md'' \<in> set (skillFiles ?w)"
    by code_simp
  have bA: "blocked ?A ''/w/code-review-request.md''"
    by code_simp
  have nA: "''/w/code-review-request.md'' \<noteq> ?w"
    by simp
  have tA: "fst (uninstall_body ?w ?A) = Inl EACCES"
    by code_simp
  have qA: "''/v/.agents/skills/code-review/SKILL.md'' \<notin> set (skillFiles ?w)"
    "''/v/.agents/skills/code-review/SKILL.md'' \<noteq> ?w"
    "lookup ?A ''/v/.agents/skills/code-review/SKILL.md'' = Some (File ''skill 0.9.0'')"
    by code_simp+
  have aB: "readFileSync ?B (MANIFEST_FILE demoPlatform) = Inr demoManifest2Text"
    by code_simp
  have cB: "getProp demoManifest2 ''installedPaths'' =
              Inr (Some (JArray (map JString ([?w] @ ?v # []))))"
    by code_simp
  have "fst (uninstall_loop (map JString [?w]) ?B) = Inr ()"
    by code_simp
  then have lB: "uninstall_loop (map JString [?w]) ?B = (Inr (), ?B1)"
    by (simp add: prod_eq_iff)
  have mB: "''/v/.agents/skills/code-review/code-review.md'' \<in> set (skillFiles ?v)"
    by code_simp
  have bB: "blocked ?B1 ''/v/.agents/skills/code-review/code-review.md''"
    by code_simp
  have nB: "''/v/.agents/skills/code-review/code-review.md'' \<noteq> ?v"
    by simp
  have tB: "fst (uninstall_body ?v ?B1) = Inl EACCES"
    by code_simp
  note A = uninstall_stops_at_first_throw [OF aA b cA lA mA bA nA e]
  note B = uninstall_stops_at_first_throw [OF aB b cB lB mB bB nB e]
  from A tA have 1: "fst (removeSkillFiles_try demoPlatform ?A) = Inl EACCES"
    by auto
  note A3 = A [THEN conjunct2, THEN conjunct2, THEN conjunct1, rule_format, OF qA(1) qA(2)]
  have 2: "lookup (removeSkillFiles demoPlatform ?A)
      ''/v/.agents/skills/code-review/SKILL.md'' = Some (File ''skill 0.9.0'')"
    unfolding A3 by (rule qA(3))
  note A4 = A [THEN conjunct2, THEN conjunct2, THEN conjunct2, THEN conjunct1]
  note A6 = A [THEN conjunct2, THEN conjunct2, THEN conjunct2, THEN conjunct2, THEN conjunct2]
  from B tB have 3: "fst (removeSkillFiles_try demoPlatform ?B) = Inl EACCES"
    by auto
  note B4 = B [THEN conjunct2, THEN conjunct2, THEN conjunct2, THEN conjunct1]
  note B6 = B [THEN conjunct2, THEN conjunct2, THEN conjunct2, THEN conjunct2, THEN conjunct2]
  have bB': "blocked (snd (uninstall_loop [JString ?w] ?B))
      ''/v/.agents/skills/code-review/code-review.md''"
    using bB by simp
  show ?thesis
    by (intro conjI; fact bA 1 A4 2 A6 bB' 3 B4 B6)
qed

section \<open>Theorems about activation\<close>

lemma unlinkSync_history:
  "\<exists>pre. history (snd (unlinkSync fs p)) = history fs @ pre \<and> list_all (nothingNew fs) pre"
  by (auto simp: unlinkSync_def nothingNew_def map_of_delete_nodes split: option.splits node.splits)

lemma unlinkIfExists_history:
  "\<exists>pre. history (snd (unlinkIfExists fs p)) = history fs @ pre \<and> list_all (nothingNew fs) pre"
  using unlinkSync_history [of fs p] by (auto simp: unlinkIfExists_def)

lemma nothingNew_shrinks: "shrinks fs fs1 \<Longrightarrow> nothingNew fs1 s \<Longrightarrow> nothingNew fs s"
proof -
  assume sh: "shrinks fs fs1" and n: "nothingNew fs1 s"
  have "map_of s p = None \<or> map_of s p = lookup fs p" for p
  proof (cases "map_of s p")
    case None
    then show ?thesis by simp
  next
    case (Some x)
    from n have "\<forall>q. map_of s q = None \<or> map_of s q = lookup fs1 q"
      by (simp add: nothingNew_def)
    then have "map_of s p = None \<or> map_of s p = lookup fs1 p" ..
    with Some have "lookup fs1 p = Some x"
      by simp
    from shrinks_lookup [OF sh this] Some show ?thesis
      by simp
  qed
  then show ?thesis
    by (simp add: nothingNew_def)
qed

lemma removeOldSkillFiles_shrinks: "shrinks fs (snd (removeOldSkillFiles ws fs))"
proof -
  let ?f1 = "path_join (destDir ws) ''SKILL.md''"
  let ?f2 = "path_join (destDir ws) ''code-review.md''"
  let ?fs1 = "snd (unlinkIfExists fs ?f1)"
  have s1: "shrinks fs ?fs1"
    by (rule unlinkIfExists_shrinks)
  have s2: "shrinks fs (snd (unlinkIfExists ?fs1 ?f2))"
    by (rule shrinks_trans [OF s1 unlinkIfExists_shrinks])
  show ?thesis
    using s1 s2
    by (cases "unlinkIfExists fs ?f1")
       (auto simp: removeOldSkillFiles_def Let_def andThen_def split: sum.splits)
qed

lemma removeOldSkillFiles_history:
  "\<exists>pre. history (snd (removeOldSkillFiles ws fs)) = history fs @ pre
         \<and> list_all (nothingNew fs) pre"
proof -
  let ?f1 = "path_join (destDir ws) ''SKILL.md''"
  let ?f2 = "path_join (destDir ws) ''code-review.md''"
  let ?fs1 = "snd (unlinkIfExists fs ?f1)"
  let ?fs2 = "snd (unlinkIfExists ?fs1 ?f2)"
  obtain pre1 where h1: "history ?fs1 = history fs @ pre1" "list_all (nothingNew fs) pre1"
    using unlinkIfExists_history [of fs ?f1] by blast
  obtain pre2 where h2: "history ?fs2 = history ?fs1 @ pre2" "list_all (nothingNew ?fs1) pre2"
    using unlinkIfExists_history [of ?fs1 ?f2] by blast
  have s1: "shrinks fs ?fs1"
    by (rule unlinkIfExists_shrinks)
  from h2(2) have n2: "list_all (nothingNew fs) pre2"
    using nothingNew_shrinks [OF s1] by (simp add: list_all_iff)
  have a: "history ?fs2 = history fs @ (pre1 @ pre2) \<and> list_all (nothingNew fs) (pre1 @ pre2)"
    using h1 h2(1) n2 by simp
  show ?thesis
  proof (cases "fst (unlinkIfExists fs ?f1)")
    case (Inl e)
    then have "snd (removeOldSkillFiles ws fs) = ?fs1"
      by (cases "unlinkIfExists fs ?f1") (simp add: removeOldSkillFiles_def Let_def andThen_def)
    with h1 show ?thesis by auto
  next
    case (Inr u)
    then have "snd (removeOldSkillFiles ws fs) = ?fs2"
      by (cases "unlinkIfExists fs ?f1") (simp add: removeOldSkillFiles_def Let_def andThen_def)
    with a show ?thesis
      by (intro exI [of _ "pre1 @ pre2"]) simp
  qed
qed

lemma removeOldSkillFiles_removed:
  assumes "fst (removeOldSkillFiles ws fs) = Inr ()"
  shows "\<not> existsSync (snd (removeOldSkillFiles ws fs)) (path_join (destDir ws) ''SKILL.md'')
       \<and> \<not> existsSync (snd (removeOldSkillFiles ws fs)) (path_join (destDir ws) ''code-review.md'')"
proof -
  let ?f1 = "path_join (destDir ws) ''SKILL.md''"
  let ?f2 = "path_join (destDir ws) ''code-review.md''"
  let ?fs1 = "snd (unlinkIfExists fs ?f1)"
  let ?fs2 = "snd (unlinkIfExists ?fs1 ?f2)"
  have r1: "fst (unlinkIfExists fs ?f1) = Inr ()"
    using assms
    by (cases "unlinkIfExists fs ?f1"; cases "fst (unlinkIfExists fs ?f1)")
       (simp_all add: removeOldSkillFiles_def Let_def andThen_def)
  then have eq: "removeOldSkillFiles ws fs = unlinkIfExists ?fs1 ?f2"
    by (cases "unlinkIfExists fs ?f1") (simp add: removeOldSkillFiles_def Let_def andThen_def)
  from r1 have g1: "\<not> existsSync ?fs1 ?f1"
    using unlinkIfExists_cases [of fs ?f1] by auto
  from assms eq have g2: "\<not> existsSync ?fs2 ?f2"
    using unlinkIfExists_cases [of ?fs1 ?f2] by auto
  from g1 have "\<not> existsSync ?fs2 ?f1"
    using shrinks_gone [OF unlinkIfExists_shrinks] by blast
  with g2 eq show ?thesis by simp
qed

lemma commit_extends: "prefix (history fs) (history (commit fs ns))"
  by simp

lemma writeFileSync_extends: "prefix (history fs) (history (snd (writeFileSync fs p c)))"
  by (auto simp: writeFileSync_def split: option.splits node.splits)

lemma copyFileSync_extends: "prefix (history fs) (history (snd (copyFileSync fs src dst)))"
  by (auto simp: copyFileSync_def writeFileSync_extends split: sum.splits)

lemma mkdirChain_extends: "prefix (history fs) (history (snd (mkdirChain ps fs)))"
proof (induction ps arbitrary: fs)
  case Nil
  show ?case by simp
next
  case (Cons a ps)
  have "prefix (history fs) (history (snd (mkdirChain ps (commit fs (AList.update a Dir (nodes fs))))))"
    by (rule prefix_order.trans [OF commit_extends Cons.IH])
  with Cons.IH [of fs] show ?case
    by (auto split: option.splits node.splits)
qed

lemma setManifest_extends: "prefix (history fs) (history (snd (setManifest P m fs)))"
proof -
  let ?r = "if \<not> existsSync fs (MANIFEST_DIR P) then mkdirSync_recursive fs (MANIFEST_DIR P)
            else (Inr (), fs)"
  have 1: "prefix (history fs) (history (snd ?r))"
    by (simp add: mkdirSync_recursive_def mkdirChain_extends)
  show ?thesis
  proof (cases "fst ?r")
    case (Inl e)
    with 1 show ?thesis
      by (cases ?r) (simp add: setManifest_def andThen_def)
  next
    case (Inr u)
    have "prefix (history fs) (history (snd (writeFileSync (snd ?r) (MANIFEST_FILE P)
            (JSON_stringify P m))))"
      by (rule prefix_order.trans [OF 1 writeFileSync_extends])
    with Inr show ?thesis
      by (cases ?r) (simp add: setManifest_def andThen_def)
  qed
qed


lemma andThen_extends:
  assumes "prefix (history fs) (history (snd r))"
      and "\<And>a. prefix (history (snd r)) (history (snd (f a (snd r))))"
  shows "prefix (history fs) (history (snd (andThen r f)))"
proof (cases r)
  case (Pair x s)
  show ?thesis
  proof (cases x)
    case (Inl e)
    with Pair assms(1) show ?thesis by (simp add: andThen_def)
  next
    case (Inr a)
    with Pair prefix_order.trans [OF assms(1) assms(2) [of a]] show ?thesis
      by (simp add: andThen_def)
  qed
qed

lemma installSkillFiles_extends:
  "prefix (history fs) (history (snd (installSkillFiles P ext ws v fs)))"
  unfolding installSkillFiles_def Let_def
  by (intro andThen_extends)
     (simp_all add: mkdirSync_recursive_def mkdirChain_extends copyFileSync_extends
        setManifest_extends split: sum.splits)

lemma activate_install_due:
  "installDue P cfg ctx ws fs \<Longrightarrow> activate_install P cfg ctx (Some ws) fs = runInstall P ctx ws fs"
  by (auto simp: activate_install_def needsInstall_def installDue_def runInstall_def Let_def
      split: sum.splits)

lemma activate_install_not_due:
  "\<not> installDue P cfg ctx ws fs \<Longrightarrow>
     snd (activate_install P cfg ctx (Some ws) fs) = fs
     \<and> fst (activate_install P cfg ctx (Some ws) fs) \<noteq> Inr Installed"
  by (auto simp: activate_install_def needsInstall_def installDue_def Let_def
      split: sum.splits)

lemma runInstall_removal_throws:
  "fst (removeOldSkillFiles ws fs) = Inl e \<Longrightarrow>
     runInstall P ctx ws fs = (Inl e, snd (removeOldSkillFiles ws fs))"
  by (cases "removeOldSkillFiles ws fs") (simp add: runInstall_def andThen_def)

lemma runInstall_removal_done:
  "fst (removeOldSkillFiles ws fs) = Inr () \<Longrightarrow>
     runInstall P ctx ws fs =
       andThen (installSkillFiles P (extensionPath ctx) ws (currentVersion ctx)
                  (snd (removeOldSkillFiles ws fs)))
         (\<lambda>_ fs2. (Inr Installed, fs2))"
  by (cases "removeOldSkillFiles ws fs") (simp add: runInstall_def andThen_def)

text \<open>
  C5. Without a workspace folder nothing happens. With one, activation runs the install,
  \<^verbatim>\<open>removeOldSkillFiles\<close> and then \<^verbatim>\<open>installSkillFiles\<close>, exactly when auto-install is enabled
  and the destination's \<^verbatim>\<open>SKILL.md\<close> is missing or the manifest's recorded version is not
  the current one; otherwise it leaves the disk as it is (a manifest that is \<^verbatim>\<open>null\<close> records
  no version: with \<^verbatim>\<open>SKILL.md\<close> present, activation ends in the \<^verbatim>\<open>TypeError\<close> of reading
  it). Whenever the install runs, every
  state the disk passes through during the removal holds nothing new; when the removal
  throws, \<^verbatim>\<open>installSkillFiles\<close> is not called; when it completes, neither documentation file
  is in the destination, and only then, from that state on, does \<^verbatim>\<open>installSkillFiles\<close>
  copy. So no state holds a file of the old version beside a file of the new one.
\<close>

theorem activation_install_policy:
  "activate_install P cfg ctx None fs = (Inr NoWorkspace, fs)
   \<and> (installDue P cfg ctx ws fs \<longrightarrow>
        activate_install P cfg ctx (Some ws) fs = runInstall P ctx ws fs)
   \<and> (\<not> installDue P cfg ctx ws fs \<longrightarrow>
        snd (activate_install P cfg ctx (Some ws) fs) = fs
        \<and> fst (activate_install P cfg ctx (Some ws) fs) \<noteq> Inr Installed)
   \<and> (autoInstallSkills cfg \<and> existsSync fs (path_join (destDir ws) ''SKILL.md'')
        \<and> getManifest P fs = JNull \<longrightarrow>
        activate_install P cfg ctx (Some ws) fs = (Inl TypeError, fs))
   \<and> (\<exists>pre. history (snd (removeOldSkillFiles ws fs)) = history fs @ pre
             \<and> list_all (nothingNew fs) pre)
   \<and> (\<forall>e. fst (removeOldSkillFiles ws fs) = Inl e \<longrightarrow>
        runInstall P ctx ws fs = (Inl e, snd (removeOldSkillFiles ws fs)))
   \<and> (fst (removeOldSkillFiles ws fs) = Inr () \<longrightarrow>
        \<not> existsSync (snd (removeOldSkillFiles ws fs)) (path_join (destDir ws) ''SKILL.md'')
        \<and> \<not> existsSync (snd (removeOldSkillFiles ws fs)) (path_join (destDir ws) ''code-review.md'')
        \<and> runInstall P ctx ws fs =
             andThen (installSkillFiles P (extensionPath ctx) ws (currentVersion ctx)
                        (snd (removeOldSkillFiles ws fs)))
               (\<lambda>_ fs2. (Inr Installed, fs2))
        \<and> prefix (history (snd (removeOldSkillFiles ws fs)))
             (history (snd (runInstall P ctx ws fs))))"
proof -
  have 1: "activate_install P cfg ctx None fs = (Inr NoWorkspace, fs)"
    by (simp add: activate_install_def)
  have 6: "prefix (history (snd (removeOldSkillFiles ws fs))) (history (snd (runInstall P ctx ws fs)))"
    if ok: "fst (removeOldSkillFiles ws fs) = Inr ()"
  proof -
    let ?fs1 = "snd (removeOldSkillFiles ws fs)"
    let ?i = "installSkillFiles P (extensionPath ctx) ws (currentVersion ctx) ?fs1"
    have "snd (andThen ?i (\<lambda>_ fs2. (Inr Installed, fs2))) = snd ?i"
      by (cases ?i; cases "fst ?i") (simp_all add: andThen_def)
    with runInstall_removal_done [OF ok, of P ctx] show ?thesis
      by (simp add: installSkillFiles_extends)
  qed
  have 7: "activate_install P cfg ctx (Some ws) fs = (Inl TypeError, fs)"
    if "autoInstallSkills cfg \<and> existsSync fs (path_join (destDir ws) ''SKILL.md'')
        \<and> getManifest P fs = JNull"
    using that by (simp add: activate_install_def needsInstall_def getProp_def)
  from 1 7 activate_install_due [of P cfg ctx ws fs] activate_install_not_due [of P cfg ctx ws fs]
    removeOldSkillFiles_history [of ws fs] runInstall_removal_throws [of ws fs _ P ctx]
    removeOldSkillFiles_removed [of ws fs] runInstall_removal_done [of ws fs P ctx] 6
  show ?thesis
    by (intro conjI impI allI) simp_all
qed

theorem activation_install_policy_witness:
  "installDue demoPlatform demoCfg demoCtx ''/w'' (installedFs demoManifestOldText {})
   \<and> fst (removeOldSkillFiles ''/w'' (installedFs demoManifestOldText {})) = Inr ()
   \<and> activate_install demoPlatform demoCfg demoCtx (Some ''/w'') (installedFs demoManifestOldText {})
       = runInstall demoPlatform demoCtx ''/w'' (installedFs demoManifestOldText {})
   \<and> fst (runInstall demoPlatform demoCtx ''/w'' (installedFs demoManifestOldText {})) = Inr Installed
   \<and> lookup (snd (runInstall demoPlatform demoCtx ''/w'' (installedFs demoManifestOldText {})))
        ''/w/.agents/skills/code-review/SKILL.md'' = Some (File ''skill 1.0.0'')
   \<and> \<not> installDue demoPlatform demoCfg demoCtx ''/w''
         (snd (runInstall demoPlatform demoCtx ''/w'' (installedFs demoManifestOldText {})))"
proof -
  let ?fs = "installedFs demoManifestOldText {}"
  have due: "installDue demoPlatform demoCfg demoCtx ''/w'' ?fs"
    by code_simp
  have rm: "fst (removeOldSkillFiles ''/w'' ?fs) = Inr ()"
    by code_simp
  have r: "fst (runInstall demoPlatform demoCtx ''/w'' ?fs) = Inr Installed"
    "lookup (snd (runInstall demoPlatform demoCtx ''/w'' ?fs))
        ''/w/.agents/skills/code-review/SKILL.md'' = Some (File ''skill 1.0.0'')"
    "\<not> installDue demoPlatform demoCfg demoCtx ''/w''
         (snd (runInstall demoPlatform demoCtx ''/w'' ?fs))"
    by code_simp+
  from activation_install_policy [of demoPlatform demoCfg demoCtx ?fs "''/w''"] due
  have "activate_install demoPlatform demoCfg demoCtx (Some ''/w'') ?fs
          = runInstall demoPlatform demoCtx ''/w'' ?fs"
    by blast
  with due rm r show ?thesis
    by simp
qed

section \<open>Theorems about the installer\<close>

lemma keeps_refl: "keeps p fs fs"
  by (simp add: keeps_def)

lemma keeps_trans: "keeps p a b \<Longrightarrow> keeps p b c \<Longrightarrow> keeps p a c"
  by (auto simp: keeps_def)

lemma mkdirChain_keeps: "keeps p fs (snd (mkdirChain ps fs))"
proof (induction ps arbitrary: fs)
  case Nil
  show ?case by (simp add: keeps_refl)
next
  case (Cons a ps)
  show ?case
  proof (cases "lookup fs a")
    case None
    show ?thesis
    proof (cases "a \<in> locked fs")
      case True
      with None show ?thesis by (simp add: keeps_refl)
    next
      case False
      let ?fs1 = "commit fs (AList.update a Dir (nodes fs))"
      have "keeps p fs ?fs1"
        using None by (simp add: keeps_def map_of_update_nodes)
      from keeps_trans [OF this Cons.IH [of ?fs1]] None False show ?thesis
        by simp
    qed
  next
    case (Some n)
    with Cons.IH [of fs] show ?thesis
      by (cases n) (simp_all add: keeps_refl)
  qed
qed

lemma writeFileSync_keeps: "p \<noteq> q \<Longrightarrow> keeps p fs (snd (writeFileSync fs q c))"
  by (auto simp: writeFileSync_def keeps_def map_of_update_nodes split: option.splits node.splits)

lemma copyFileSync_keeps: "p \<noteq> dst \<Longrightarrow> keeps p fs (snd (copyFileSync fs src dst))"
  by (auto simp: copyFileSync_def writeFileSync_keeps keeps_refl split: sum.splits)

lemma getManifest_keeps: "keeps (MANIFEST_FILE P) fs fs' \<Longrightarrow> getManifest P fs' = getManifest P fs"
  by (auto simp: keeps_def getManifest_def getManifest_try_def existsSync_def readFileSync_def
      split: node.splits)

lemma writeFileSync_readable:
  "fst (writeFileSync fs p c) = Inr () \<Longrightarrow> readFileSync (snd (writeFileSync fs p c)) p = Inr c"
  by (auto simp: writeFileSync_def readFileSync_def map_of_update_nodes
      split: option.splits node.splits if_splits)

lemma andThen_unit:
  fixes r :: "(js_error + unit) \<times> filesystem"
  shows "fst (andThen r f) = Inr x \<Longrightarrow> andThen r f = f () (snd r)"
  by (cases r; cases "fst r") (auto simp: andThen_def)

lemma setManifest_readable:
  assumes "fst (setManifest P m fs) = Inr ()"
  shows "readFileSync (snd (setManifest P m fs)) (MANIFEST_FILE P) = Inr (JSON_stringify P m)"
proof -
  let ?r = "if \<not> existsSync fs (MANIFEST_DIR P) then mkdirSync_recursive fs (MANIFEST_DIR P)
            else (Inr (), fs)"
  from assms have "fst (andThen ?r (\<lambda>_ fs1. writeFileSync fs1 (MANIFEST_FILE P)
                          (JSON_stringify P m))) = Inr ()"
    by (simp add: setManifest_def)
  from andThen_unit [OF this]
  have eq: "setManifest P m fs = writeFileSync (snd ?r) (MANIFEST_FILE P) (JSON_stringify P m)"
    by (simp add: setManifest_def)
  with assms show ?thesis
    using writeFileSync_readable [of "snd ?r" "MANIFEST_FILE P" "JSON_stringify P m"] by simp
qed

lemma manifest_file_not_destination:
  "MANIFEST_FILE P \<noteq> path_join d ''SKILL.md''" "MANIFEST_FILE P \<noteq> path_join d ''code-review.md''"
  using manifest_file_not_skill_file [of P d] by (simp_all add: skillFiles_def)

text \<open>The state in which \<^verbatim>\<open>installSkillFiles\<close> reads the manifest shows the manifest of the start.\<close>

lemma installSkillFiles_success:
  assumes "fst (installSkillFiles P ext ws v fs) = Inr ()"
  shows "\<exists>fs3 m. keeps (MANIFEST_FILE P) fs fs3
           \<and> recordInstall (getManifest P fs) (destDir ws) v = Inr m
           \<and> installSkillFiles P ext ws v fs = setManifest P m fs3"
proof -
  let ?mf = "MANIFEST_FILE P"
  let ?dest = "destDir ws"
  let ?srcSkill = "path_join (path_join ext ''resources'') ''SKILL.md''"
  let ?srcCodeReview = "path_join (path_join ext ''resources'') ''code-review.md''"
  let ?r1 = "if \<not> existsSync fs ?dest then mkdirSync_recursive fs ?dest else (Inr (), fs)"
  let ?fs1 = "snd ?r1"
  let ?r2 = "if existsSync ?fs1 ?srcSkill
             then copyFileSync ?fs1 ?srcSkill (path_join ?dest ''SKILL.md'') else (Inr (), ?fs1)"
  let ?fs2 = "snd ?r2"
  let ?r3 = "if existsSync ?fs2 ?srcCodeReview
             then copyFileSync ?fs2 ?srcCodeReview (path_join ?dest ''code-review.md'')
             else (Inr (), ?fs2)"
  let ?fs3 = "snd ?r3"
  let ?step4 = "case recordInstall (getManifest P ?fs3) ?dest v of
                    Inl e \<Rightarrow> (Inl e, ?fs3) | Inr manifest \<Rightarrow> setManifest P manifest ?fs3"
  have k1: "keeps ?mf fs ?fs1"
    by (simp add: mkdirSync_recursive_def mkdirChain_keeps keeps_refl)
  have k2: "keeps ?mf ?fs1 ?fs2"
    by (simp add: copyFileSync_keeps manifest_file_not_destination keeps_refl)
  have k3: "keeps ?mf ?fs2 ?fs3"
    by (simp add: copyFileSync_keeps manifest_file_not_destination keeps_refl)
  have k: "keeps ?mf fs ?fs3"
    by (rule keeps_trans [OF keeps_trans [OF k1 k2] k3])
  have unfold: "installSkillFiles P ext ws v fs =
          andThen ?r1 (\<lambda>_ fs1. andThen (if existsSync fs1 ?srcSkill
             then copyFileSync fs1 ?srcSkill (path_join ?dest ''SKILL.md'') else (Inr (), fs1))
          (\<lambda>_ fs2. andThen (if existsSync fs2 ?srcCodeReview
             then copyFileSync fs2 ?srcCodeReview (path_join ?dest ''code-review.md'')
             else (Inr (), fs2))
          (\<lambda>_ fs3. case recordInstall (getManifest P fs3) ?dest v of
                    Inl e \<Rightarrow> (Inl e, fs3) | Inr manifest \<Rightarrow> setManifest P manifest fs3)))"
    by (simp add: installSkillFiles_def Let_def)
  from assms unfold have "fst (andThen ?r1 (\<lambda>_ fs1. andThen (if existsSync fs1 ?srcSkill
             then copyFileSync fs1 ?srcSkill (path_join ?dest ''SKILL.md'') else (Inr (), fs1))
          (\<lambda>_ fs2. andThen (if existsSync fs2 ?srcCodeReview
             then copyFileSync fs2 ?srcCodeReview (path_join ?dest ''code-review.md'')
             else (Inr (), fs2))
          (\<lambda>_ fs3. case recordInstall (getManifest P fs3) ?dest v of
                    Inl e \<Rightarrow> (Inl e, fs3) | Inr manifest \<Rightarrow> setManifest P manifest fs3)))) = Inr ()"
    by simp
  from andThen_unit [OF this] unfold
  have e1: "installSkillFiles P ext ws v fs = andThen ?r2
          (\<lambda>_ fs2. andThen (if existsSync fs2 ?srcCodeReview
             then copyFileSync fs2 ?srcCodeReview (path_join ?dest ''code-review.md'')
             else (Inr (), fs2))
          (\<lambda>_ fs3. case recordInstall (getManifest P fs3) ?dest v of
                    Inl e \<Rightarrow> (Inl e, fs3) | Inr manifest \<Rightarrow> setManifest P manifest fs3))"
    by simp
  with assms have "fst (andThen ?r2
          (\<lambda>_ fs2. andThen (if existsSync fs2 ?srcCodeReview
             then copyFileSync fs2 ?srcCodeReview (path_join ?dest ''code-review.md'')
             else (Inr (), fs2))
          (\<lambda>_ fs3. case recordInstall (getManifest P fs3) ?dest v of
                    Inl e \<Rightarrow> (Inl e, fs3) | Inr manifest \<Rightarrow> setManifest P manifest fs3))) = Inr ()"
    by simp
  from andThen_unit [OF this] e1
  have e2: "installSkillFiles P ext ws v fs = andThen ?r3
          (\<lambda>_ fs3. case recordInstall (getManifest P fs3) ?dest v of
                    Inl e \<Rightarrow> (Inl e, fs3) | Inr manifest \<Rightarrow> setManifest P manifest fs3)"
    by simp
  with assms have "fst (andThen ?r3
          (\<lambda>_ fs3. case recordInstall (getManifest P fs3) ?dest v of
                    Inl e \<Rightarrow> (Inl e, fs3) | Inr manifest \<Rightarrow> setManifest P manifest fs3)) = Inr ()"
    by simp
  from andThen_unit [OF this] e2
  have e3: "installSkillFiles P ext ws v fs = ?step4"
    by simp
  have g: "getManifest P ?fs3 = getManifest P fs"
    using k by (rule getManifest_keeps)
  from assms e3 g obtain m where m: "recordInstall (getManifest P fs) ?dest v = Inr m"
    by (cases "recordInstall (getManifest P fs) ?dest v") auto
  with e3 g have "installSkillFiles P ext ws v fs = setManifest P m ?fs3"
    by simp
  with k m show ?thesis by blast
qed

lemma recordInstall_object:
  assumes "recordedPaths manifest = Some xs"
  shows "\<exists>kvs. manifest = JObject kvs \<and> map_of kvs ''installedPaths'' = Some (JArray xs)
         \<and> recordInstall manifest d v =
             Inr (JObject (AList.update ''extensionVersion'' (JString v)
                    (if JString d \<in> set xs then kvs
                     else AList.update ''installedPaths'' (JArray (xs @ [JString d])) kvs)))"
proof -
  from assms obtain kvs where o: "manifest = JObject kvs"
    and p: "map_of kvs ''installedPaths'' = Some (JArray xs)"
    by (auto simp: recordedPaths_def split: json.splits option.splits)
  then have "recordInstall manifest d v =
             Inr (JObject (AList.update ''extensionVersion'' (JString v)
                    (if JString d \<in> set xs then kvs
                     else AList.update ''installedPaths'' (JArray (xs @ [JString d])) kvs)))"
    by (simp add: recordInstall_def getProp_def js_includes_def js_push_def setProp_def)
  with o p show ?thesis by blast
qed

lemma recordInstall_paths:
  assumes "recordedPaths manifest = Some xs" and "recordInstall manifest d v = Inr m"
  shows "recordedPaths m = Some (if JString d \<in> set xs then xs else xs @ [JString d])"
  using recordInstall_object [OF assms(1), of d v] assms(2)
  by (auto simp: recordedPaths_def update_conv')

lemma recordInstall_again:
  assumes "recordedPaths manifest = Some xs" and "recordInstall manifest d v = Inr m"
  shows "recordInstall m d v = Inr m"
proof -
  let ?ys = "if JString d \<in> set xs then xs else xs @ [JString d]"
  have p: "recordedPaths m = Some ?ys"
    using assms by (rule recordInstall_paths)
  from recordInstall_object [OF assms(1), of d v] assms(2)
  obtain kvs where m: "m = JObject (AList.update ''extensionVersion'' (JString v) kvs)"
    by auto
  from recordInstall_object [OF p, of d v] m
  show ?thesis
    by (auto split: if_splits)
qed

lemma count_list_recorded:
  "count_list (if x \<in> set xs then xs else xs @ [x]) x = max 1 (count_list xs x)"
proof (cases "x \<in> set xs")
  case True
  then have "count_list xs x \<noteq> 0"
    using count_list_0_iff [of xs x] by blast
  with True show ?thesis by simp
next
  case False
  then show ?thesis by simp
qed


lemma installSkillFiles_manifest:
  assumes ok: "fst (installSkillFiles P ext ws v fs) = Inr ()"
      and rec: "recordInstall (getManifest P fs) (destDir ws) v = Inr m"
      and rb: "JSON_parse P (JSON_stringify P m) = Some m"
  shows "getManifest P (snd (installSkillFiles P ext ws v fs)) = m"
proof -
  from installSkillFiles_success [OF ok] rec obtain fs3 where
    eq: "installSkillFiles P ext ws v fs = setManifest P m fs3"
    by auto
  with ok have "fst (setManifest P m fs3) = Inr ()"
    by simp
  from setManifest_readable [OF this] eq
  have "readFileSync (snd (installSkillFiles P ext ws v fs)) (MANIFEST_FILE P)
          = Inr (JSON_stringify P m)"
    by simp
  from getManifest_parsed [OF this rb] show ?thesis .
qed

text \<open>
  C6. Let \<^verbatim>\<open>installSkillFiles\<close> run twice for the same workspace and version, both runs
  completing, on a disk whose manifest has an array under \<^verbatim>\<open>installedPaths\<close> (the default
  manifest of an absent file has the empty one), and let the manifest the first run writes
  parse back to itself. Then the manifest read afterwards lists what it listed before, with
  the destination appended if and only if it was not a member: the destination occurs once
  if it occurred at most once before, and the second run adds nothing.
\<close>

theorem install_twice_records_once:
  assumes "fst (installSkillFiles P ext ws v fs) = Inr ()"
      and "fst (installSkillFiles P ext ws v (snd (installSkillFiles P ext ws v fs))) = Inr ()"
      and "recordedPaths (getManifest P fs) = Some xs"
      and "\<forall>m. recordInstall (getManifest P fs) (destDir ws) v = Inr m
               \<longrightarrow> JSON_parse P (JSON_stringify P m) = Some m"
  shows "\<exists>ys. recordedPaths (getManifest P (snd (installSkillFiles P ext ws v
                  (snd (installSkillFiles P ext ws v fs))))) = Some ys
            \<and> recordedPaths (getManifest P (snd (installSkillFiles P ext ws v fs))) = Some ys
            \<and> ys = (if JString (destDir ws) \<in> set xs then xs else xs @ [JString (destDir ws)])
            \<and> count_list ys (JString (destDir ws)) = max 1 (count_list xs (JString (destDir ws)))
            \<and> (count_list xs (JString (destDir ws)) \<le> 1
                 \<longrightarrow> count_list ys (JString (destDir ws)) = 1)"
proof -
  let ?d = "destDir ws"
  let ?fs1 = "snd (installSkillFiles P ext ws v fs)"
  let ?fs2 = "snd (installSkillFiles P ext ws v ?fs1)"
  let ?ys = "if JString ?d \<in> set xs then xs else xs @ [JString ?d]"
  from recordInstall_object [OF assms(3), of ?d v] obtain m where
    rec: "recordInstall (getManifest P fs) ?d v = Inr m"
    by blast
  with assms(4) have rb: "JSON_parse P (JSON_stringify P m) = Some m"
    by blast
  have m1: "getManifest P ?fs1 = m"
    using assms(1) rec rb by (rule installSkillFiles_manifest)
  have again: "recordInstall m ?d v = Inr m"
    using assms(3) rec by (rule recordInstall_again)
  have m2: "getManifest P ?fs2 = m"
    using assms(2) again rb m1 installSkillFiles_manifest [of P ext ws v ?fs1 m] by simp
  have p: "recordedPaths m = Some ?ys"
    using assms(3) rec by (rule recordInstall_paths)
  have c: "count_list ?ys (JString ?d) = max 1 (count_list xs (JString ?d))"
    by (rule count_list_recorded)
  then have "count_list xs (JString ?d) \<le> 1 \<longrightarrow> count_list ?ys (JString ?d) = 1"
    by linarith
  with m1 m2 p c show ?thesis
    by (intro exI [of _ ?ys]) simp
qed

theorem install_twice_records_once_witness:
  "fst (installSkillFiles demoPlatform ''/ext'' ''/w'' ''1.0.0'' freshFs) = Inr ()
   \<and> fst (installSkillFiles demoPlatform ''/ext'' ''/w'' ''1.0.0''
           (snd (installSkillFiles demoPlatform ''/ext'' ''/w'' ''1.0.0'' freshFs))) = Inr ()
   \<and> recordedPaths (getManifest demoPlatform freshFs) = Some []
   \<and> recordedPaths (getManifest demoPlatform
         (snd (installSkillFiles demoPlatform ''/ext'' ''/w'' ''1.0.0''
            (snd (installSkillFiles demoPlatform ''/ext'' ''/w'' ''1.0.0'' freshFs)))))
       = Some [JString ''/w/.agents/skills/code-review'']"
proof -
  let ?i = "installSkillFiles demoPlatform ''/ext'' ''/w'' ''1.0.0''"
  have a: "fst (?i freshFs) = Inr ()"
    by code_simp
  have b: "fst (?i (snd (?i freshFs))) = Inr ()"
    by code_simp
  have c: "recordedPaths (getManifest demoPlatform freshFs) = Some []"
    by code_simp
  have r: "recordInstall (getManifest demoPlatform freshFs) (destDir ''/w'') ''1.0.0''
             = Inr demoManifest"
    by code_simp
  have rb: "JSON_parse demoPlatform (JSON_stringify demoPlatform demoManifest) = Some demoManifest"
    by code_simp
  from r rb have d: "\<forall>m. recordInstall (getManifest demoPlatform freshFs) (destDir ''/w'') ''1.0.0''
                        = Inr m
               \<longrightarrow> JSON_parse demoPlatform (JSON_stringify demoPlatform m) = Some m"
    by simp
  have e: "destDir ''/w'' = ''/w/.agents/skills/code-review''"
    by code_simp
  from install_twice_records_once [OF a b c d] a b c e show ?thesis
    by simp
qed

end
